theory Spec2Isabelle
  imports Complex_Main
begin

section \<open>Receipt extraction pipeline: strings and patterns\<close>

text \<open>
  The development embeds the receipt-extraction core of the backend:
  \<^verbatim>\<open>services/ocrService.js\<close> (orchestrator, heuristic tier and its
  recognizers), \<^verbatim>\<open>services/geminiOCRService.js\<close> (vision tier),
  \<^verbatim>\<open>controllers/receiptController.js\<close> (document life cycle) and the schema
  of \<^verbatim>\<open>models/Receipt.js\<close>.

  Strings are lists of 8-bit characters (the Latin-1 range of the source's UTF-16 code
  units). Numbers the recognizers compute (amounts with at most two decimals,
  confidences that are sums of the tenths 0.1 .. 0.8) are modelled as rationals: on
  these values the rational order and sums agree with the doubles of the source.
\<close>

subsection \<open>Character classes\<close>

definition isDigit :: "char \<Rightarrow> bool" where
  \<comment> \<open>the class \<^verbatim>\<open>\d\<close>\<close>
  "isDigit c \<longleftrightarrow> c \<in> set ''0123456789''"

definition isSpace :: "char \<Rightarrow> bool" where
  \<comment> \<open>the class \<^verbatim>\<open>\s\<close> (also what \<^verbatim>\<open>trim\<close> strips): tab, LF, VT, FF, CR, space, NBSP\<close>
  "isSpace c \<longleftrightarrow> c \<in> set [CHR 0x09, CHR 0x0A, CHR 0x0B, CHR 0x0C, CHR 0x0D, CHR 0x20, CHR 0xA0]"

definition isLineTerminator :: "char \<Rightarrow> bool" where
  "isLineTerminator c \<longleftrightarrow> c \<in> set [CHR 0x0A, CHR 0x0D]"

definition isDot :: "char \<Rightarrow> bool" where
  \<comment> \<open>the pattern \<^verbatim>\<open>.\<close>: anything but a line terminator\<close>
  "isDot c \<longleftrightarrow> \<not> isLineTerminator c"

definition isAny :: "char \<Rightarrow> bool" where
  \<comment> \<open>the class \<^verbatim>\<open>[\s\S]\<close>\<close>
  "isAny c \<longleftrightarrow> True"

definition toLowerChar :: "char \<Rightarrow> char" where
  "toLowerChar c =
     (case map_of (zip ''ABCDEFGHIJKLMNOPQRSTUVWXYZ'' ''abcdefghijklmnopqrstuvwxyz'') c of
        Some l \<Rightarrow> l
      | None \<Rightarrow> c)"

definition toLowerCase :: "string \<Rightarrow> string" where
  "toLowerCase s = map toLowerChar s"

definition isLetter :: "char \<Rightarrow> bool" where
  \<comment> \<open>the class \<^verbatim>\<open>[a-z]\<close> under the \<^verbatim>\<open>i\<close> flag\<close>
  "isLetter c \<longleftrightarrow> toLowerChar c \<in> set ''abcdefghijklmnopqrstuvwxyz''"

definition isColonOrSpace :: "char \<Rightarrow> bool" where
  \<comment> \<open>the class \<^verbatim>\<open>[:\s]\<close>\<close>
  "isColonOrSpace c \<longleftrightarrow> c = CHR '':'' \<or> isSpace c"

definition isDollar :: "char \<Rightarrow> bool" where
  "isDollar c \<longleftrightarrow> c = CHR ''$''"

definition isPoint :: "char \<Rightarrow> bool" where
  "isPoint c \<longleftrightarrow> c = CHR ''.''"

definition isComma :: "char \<Rightarrow> bool" where
  "isComma c \<longleftrightarrow> c = CHR '',''"

definition isSlashOrDash :: "char \<Rightarrow> bool" where
  \<comment> \<open>the class \<^verbatim>\<open>[\/\-]\<close>\<close>
  "isSlashOrDash c \<longleftrightarrow> c = CHR ''/'' \<or> c = CHR ''-''"

definition isLetterOrSpace :: "char \<Rightarrow> bool" where
  \<comment> \<open>the class \<^verbatim>\<open>[a-z\s]\<close> under the \<^verbatim>\<open>i\<close> flag\<close>
  "isLetterOrSpace c \<longleftrightarrow> isLetter c \<or> isSpace c"

definition ciEq :: "char \<Rightarrow> char \<Rightarrow> bool" where
  \<comment> \<open>a pattern letter against a text character under the \<^verbatim>\<open>i\<close> flag\<close>
  "ciEq p c \<longleftrightarrow> toLowerChar p = toLowerChar c"

subsection \<open>A backtracking matcher for the patterns of the source\<close>

text \<open>
  Every regular expression of the two services is a sequence of literals, of character
  classes under a quantifier, of one alternation of literals (the month names) and of
  the end anchor. An \<open>item\<close> is one such element; a pattern is a list of items. The
  matcher returns, for each item, the piece of the input it consumed, trying the
  counts of a greedy quantifier from the largest down (a lazy one from the smallest up)
  and the alternatives from left to right, as the backtracking of the source's regular
  expression engine does.
\<close>

datatype item =
    Lit string
  | LitI string
  | Rep "char \<Rightarrow> bool" nat "nat option"
  | RepLazy "char \<Rightarrow> bool" nat "nat option"
  | Alt "string list"
  | Eol
  | Eos

fun litPrefix :: "(char \<Rightarrow> char \<Rightarrow> bool) \<Rightarrow> string \<Rightarrow> string \<Rightarrow> bool" where
  "litPrefix eq [] s = True"
| "litPrefix eq (p # ps) [] = False"
| "litPrefix eq (p # ps) (c # cs) = (eq p c \<and> litPrefix eq ps cs)"

fun countWhile :: "(char \<Rightarrow> bool) \<Rightarrow> nat option \<Rightarrow> string \<Rightarrow> nat" where
  "countWhile cls mx [] = 0"
| "countWhile cls mx (c # cs) =
     (if mx = Some 0 \<or> \<not> cls c then 0
      else Suc (countWhile cls (map_option (\<lambda>m. m - 1) mx) cs))"

fun firstDown :: "(nat \<Rightarrow> 'a option) \<Rightarrow> nat \<Rightarrow> nat \<Rightarrow> 'a option" where
  "firstDown f lo 0 = (if lo = 0 then f 0 else None)"
| "firstDown f lo (Suc h) =
     (if Suc h < lo then None
      else (case f (Suc h) of Some r \<Rightarrow> Some r | None \<Rightarrow> firstDown f lo h))"

function firstUp :: "(nat \<Rightarrow> 'a option) \<Rightarrow> nat \<Rightarrow> nat \<Rightarrow> 'a option" where
  "firstUp f lo hi =
     (if hi < lo then None
      else (case f lo of Some r \<Rightarrow> Some r | None \<Rightarrow> firstUp f (Suc lo) hi))"
  by pat_completeness auto
termination
  by (relation "measure (\<lambda>(f, lo, hi). Suc hi - lo)") auto

fun firstOf :: "('b \<Rightarrow> 'a option) \<Rightarrow> 'b list \<Rightarrow> 'a option" where
  "firstOf f [] = None"
| "firstOf f (w # ws) = (case f w of Some r \<Rightarrow> Some r | None \<Rightarrow> firstOf f ws)"

definition consume :: "nat \<Rightarrow> (string \<Rightarrow> string list option) \<Rightarrow> string \<Rightarrow> string list option" where
  \<comment> \<open>the item takes the first \<open>n\<close> characters, the rest of the pattern continues\<close>
  "consume n k s = map_option ((#) (take n s)) (k (drop n s))"

fun step :: "item \<Rightarrow> (string \<Rightarrow> string list option) \<Rightarrow> string \<Rightarrow> string list option" where
  "step (Lit w) k s = (if litPrefix (=) w s then consume (length w) k s else None)"
| "step (LitI w) k s = (if litPrefix ciEq w s then consume (length w) k s else None)"
| "step (Rep cls mn mx) k s = firstDown (\<lambda>n. consume n k s) mn (countWhile cls mx s)"
| "step (RepLazy cls mn mx) k s = firstUp (\<lambda>n. consume n k s) mn (countWhile cls mx s)"
| "step (Alt ws) k s =
     firstOf (\<lambda>w. if litPrefix ciEq w s then consume (length w) k s else None) ws"
| "step Eol k s =
     (if s = [] \<or> isLineTerminator (hd s) then consume 0 k s else None)"
| "step Eos k s = (if s = [] then consume 0 k s else None)"

primrec rmatch :: "item list \<Rightarrow> string \<Rightarrow> string list option" where
  "rmatch [] s = Some []"
| "rmatch (it # r) s = step it (rmatch r) s"

text \<open>
  \<^verbatim>\<open>text.matchAll(re)\<close> and \<^verbatim>\<open>text.match(re)\<close> with the \<^verbatim>\<open>g\<close> flag: the
  leftmost match from each position, the search resuming where the match ended (one
  character further after an empty match).
\<close>

fun matchAll :: "item list \<Rightarrow> string \<Rightarrow> string list list" where
  "matchAll p [] = (case rmatch p [] of Some ps \<Rightarrow> [ps] | None \<Rightarrow> [])"
| "matchAll p (c # cs) =
     (case rmatch p (c # cs) of
        Some ps \<Rightarrow> ps # matchAll p (drop (length (concat ps) - 1) cs)
      | None \<Rightarrow> matchAll p cs)"

fun firstMatch :: "item list \<Rightarrow> string \<Rightarrow> string list option" where
  \<comment> \<open>\<^verbatim>\<open>re.exec\<close>, \<^verbatim>\<open>text.match(re)\<close> without the \<^verbatim>\<open>g\<close> flag\<close>
  "firstMatch p [] = rmatch p []"
| "firstMatch p (c # cs) =
     (case rmatch p (c # cs) of Some ps \<Rightarrow> Some ps | None \<Rightarrow> firstMatch p cs)"

definition test :: "item list \<Rightarrow> string \<Rightarrow> bool" where
  "test p s \<longleftrightarrow> firstMatch p s \<noteq> None"

fun removeAll_re :: "item list \<Rightarrow> string \<Rightarrow> string" where
  \<comment> \<open>\<^verbatim>\<open>text.replace(re, '')\<close> with the \<^verbatim>\<open>g\<close> flag\<close>
  "removeAll_re p [] = []"
| "removeAll_re p (c # cs) =
     (case rmatch p (c # cs) of
        Some ps \<Rightarrow>
          (if concat ps = [] then c # removeAll_re p cs
           else removeAll_re p (drop (length (concat ps) - 1) cs))
      | None \<Rightarrow> c # removeAll_re p cs)"

definition group :: "nat \<Rightarrow> nat \<Rightarrow> string list \<Rightarrow> string" where
  \<comment> \<open>the text of a capture group: the pieces of the items \<open>i ..< i + n\<close>\<close>
  "group i n ps = concat (take n (drop i ps))"

subsection \<open>String helpers of the platform\<close>

definition trim :: "string \<Rightarrow> string" where
  "trim s = rev (dropWhile isSpace (rev (dropWhile isSpace s)))"

fun splitLines :: "string \<Rightarrow> string list" where
  \<comment> \<open>\<^verbatim>\<open>text.split('\n')\<close>\<close>
  "splitLines [] = [[]]"
| "splitLines (c # cs) =
     (if c = CHR 0x0A then [] # splitLines cs
      else (case splitLines cs of l # ls \<Rightarrow> (c # l) # ls | [] \<Rightarrow> [[c]]))"

fun includesStr :: "string \<Rightarrow> string \<Rightarrow> bool" where
  \<comment> \<open>\<^verbatim>\<open>text.includes(keyword)\<close>\<close>
  "includesStr [] kw = (kw = [])"
| "includesStr (c # cs) kw = (litPrefix (=) kw (c # cs) \<or> includesStr cs kw)"

definition digitVal :: "char \<Rightarrow> nat" where
  "digitVal c = (case map_of (zip ''0123456789'' [0, 1, 2, 3, 4, 5, 6, 7, 8, 9]) c of
     Some d \<Rightarrow> d | None \<Rightarrow> 0)"

definition digitsToNat :: "string \<Rightarrow> nat" where
  "digitsToNat ds = foldl (\<lambda>a c. 10 * a + digitVal c) 0 ds"

definition parseFloat :: "string \<Rightarrow> rat option" where
  \<comment> \<open>\<^verbatim>\<open>parseFloat\<close> on decimal literals without exponent: the recognizers pass it
      digit strings with at most one point, or a matched text that starts with the letter
      of its keyword (the literal \<^verbatim>\<open>Infinity\<close> is not modelled); \<open>None\<close> is \<^verbatim>\<open>NaN\<close>\<close>
  "parseFloat s =
     (let s1 = dropWhile isSpace s;
          neg = (s1 \<noteq> [] \<and> hd s1 = CHR ''-'');
          s2 = (if s1 \<noteq> [] \<and> (hd s1 = CHR ''-'' \<or> hd s1 = CHR ''+'') then tl s1 else s1);
          ip = takeWhile isDigit s2;
          r = dropWhile isDigit s2;
          fp = (if r \<noteq> [] \<and> hd r = CHR ''.'' then takeWhile isDigit (tl r) else []);
          m = of_nat (digitsToNat ip) + of_nat (digitsToNat fp) / 10 ^ length fp
      in if ip = [] \<and> fp = [] then None else Some (if neg then - m else m))"

section \<open>Heuristic tier: the field recognizers\<close>

record 'a extracted =
  fvalue :: 'a
  fconfidence :: rat

subsection \<open>Total amount\<close>

record amountCandidate =
  avalue :: rat
  aconfidence :: rat
  acontext :: string

definition keywordAmount :: "string \<Rightarrow> item list" where
  \<comment> \<open>\<^verbatim>\<open>/KEYWORD[:\s]*\$?\s*(\d+\.?\d{0,2})/gi\<close>; the group is the items 4, 5, 6\<close>
  "keywordAmount kw =
     [LitI kw, Rep isColonOrSpace 0 None, Rep isDollar 0 (Some 1), Rep isSpace 0 None,
      Rep isDigit 1 None, Rep isPoint 0 (Some 1), Rep isDigit 0 (Some 2)]"

definition dollarAmountAtEol :: "item list" where
  \<comment> \<open>\<^verbatim>\<open>/\$\s*(\d+\.\d{2})\s*$/gm\<close>; the group is the items 2, 3, 4\<close>
  "dollarAmountAtEol =
     [Lit ''$'', Rep isSpace 0 None, Rep isDigit 1 None, Lit ''.'', Rep isDigit 2 (Some 2),
      Rep isSpace 0 None, Eol]"

definition bareAmountAtEol :: "item list" where
  \<comment> \<open>\<^verbatim>\<open>/(\d+\.\d{2})\s*$/gm\<close>; the group is the items 0, 1, 2\<close>
  "bareAmountAtEol =
     [Rep isDigit 1 None, Lit ''.'', Rep isDigit 2 (Some 2), Rep isSpace 0 None, Eol]"

definition amountPatterns :: "(item list \<times> nat) list" where
  \<comment> \<open>each pattern with the index of the first item of its capture group (three items)\<close>
  "amountPatterns =
     [(keywordAmount ''total'', 4), (keywordAmount ''amount'', 4),
      (keywordAmount ''balance'', 4), (dollarAmountAtEol, 2), (bareAmountAtEol, 0)]"

definition calculateAmountConfidence :: "string \<Rightarrow> nat \<Rightarrow> rat \<Rightarrow> rat" where
  "calculateAmountConfidence ctx patternIndex amount =
     (let c0 = 3 / 10;
          c1 = (if patternIndex = 0 then c0 + 4 / 10 else c0);
          c2 = (if includesStr (toLowerCase ctx) ''total'' then c1 + 3 / 10 else c1);
          c3 = (if 1 \<le> amount \<and> amount \<le> 500 then c2 + 2 / 10 else c2)
      in min c3 1)"

definition amountOfMatch :: "nat \<Rightarrow> nat \<Rightarrow> string list \<Rightarrow> amountCandidate list" where
  \<comment> \<open>the body of the inner \<^verbatim>\<open>forEach\<close>: one match gives at most one candidate\<close>
  "amountOfMatch g index ps =
     (case parseFloat (group g 3 ps) of
        None \<Rightarrow> []
      | Some amount \<Rightarrow>
          (if 0 < amount \<and> amount < 10000
           then [\<lparr>avalue = amount,
                  aconfidence = calculateAmountConfidence (concat ps) index amount,
                  acontext = concat ps\<rparr>]
           else []))"

definition amountsOfPattern :: "string \<Rightarrow> (item list \<times> nat) \<times> nat \<Rightarrow> amountCandidate list" where
  "amountsOfPattern text pat =
     (case pat of ((p, g), index) \<Rightarrow> concat (map (amountOfMatch g index) (matchAll p text)))"

definition amountCandidates :: "string \<Rightarrow> amountCandidate list" where
  \<comment> \<open>the array \<^verbatim>\<open>amounts\<close> after the outer \<^verbatim>\<open>forEach\<close>\<close>
  "amountCandidates text =
     concat (map (amountsOfPattern text) (zip amountPatterns [0 ..< length amountPatterns]))"

definition extractTotalAmount :: "string \<Rightarrow> rat extracted" where
  \<comment> \<open>\<^verbatim>\<open>amounts.sort((a, b) => b.confidence - a.confidence)\<close> is a stable sort by
      descending confidence\<close>
  "extractTotalAmount text =
     (case sort_key (\<lambda>a. - aconfidence a) (amountCandidates text) of
        [] \<Rightarrow> \<lparr>fvalue = 0, fconfidence = 0\<rparr>
      | a # _ \<Rightarrow> \<lparr>fvalue = avalue a, fconfidence = aconfidence a\<rparr>)"

subsection \<open>Dates\<close>

text \<open>
  A \<^verbatim>\<open>Date\<close> is its time value, in milliseconds. The clock reading \<open>now\<close> is
  given by the local fields the source reads from it (\<^verbatim>\<open>getFullYear\<close>,
  \<^verbatim>\<open>getMonth\<close>, \<^verbatim>\<open>getDate\<close>) and the milliseconds since local midnight; the local
  clock is taken to run at a fixed offset, so that \<^verbatim>\<open>new Date(y, m, d)\<close> is the day
  number of ECMAScript's \<^verbatim>\<open>MakeDay\<close> times the length of a day. One run reads the
  clock once. Parsing a date string (\<^verbatim>\<open>new Date(string)\<close>) is the platform's and
  is a parameter \<open>dateParse\<close>, \<open>None\<close> standing for an invalid date.
\<close>

record clock =
  year :: int
  month :: int
  day :: int
  msOfDay :: int

definition msPerDay :: int where
  "msPerDay = 86400000"

definition dayFromYear :: "int \<Rightarrow> int" where
  "dayFromYear y = 365 * (y - 1970) + (y - 1969) div 4 - (y - 1901) div 100 + (y - 1601) div 400"

definition isLeapYear :: "int \<Rightarrow> bool" where
  "isLeapYear y \<longleftrightarrow> y mod 4 = 0 \<and> (y mod 100 \<noteq> 0 \<or> y mod 400 = 0)"

definition monthStart :: "int \<Rightarrow> bool \<Rightarrow> int" where
  \<comment> \<open>days before the first of month \<open>m\<close> (0 .. 11) in a year\<close>
  "monthStart m leap =
     [0, 31, 59, 90, 120, 151, 181, 212, 243, 273, 304, 334] ! nat m
       + (if leap \<and> 2 \<le> m then 1 else 0)"

definition makeDay :: "int \<Rightarrow> int \<Rightarrow> int \<Rightarrow> int" where
  "makeDay y m d =
     (let ym = y + m div 12; mn = m mod 12
      in dayFromYear ym + monthStart mn (isLeapYear ym) + d - 1)"

definition newDate :: "int \<Rightarrow> int \<Rightarrow> int \<Rightarrow> int" where
  \<comment> \<open>\<^verbatim>\<open>new Date(y, m, d)\<close>: local midnight; a year 0 .. 99 means 1900 + y\<close>
  "newDate y m d = makeDay (if 0 \<le> y \<and> y \<le> 99 then 1900 + y else y) m d * msPerDay"

definition timeOf :: "clock \<Rightarrow> int" where
  "timeOf now = makeDay (year now) (month now) (day now) * msPerDay + msOfDay now"

definition validClock :: "clock \<Rightarrow> bool" where
  \<comment> \<open>the fields of a clock reading: a calendar day since 1970 and a time of day\<close>
  "validClock now \<longleftrightarrow>
     1970 \<le> year now \<and> 0 \<le> month now \<and> month now \<le> 11 \<and>
     1 \<le> day now \<and> day now \<le> 31 \<and> 0 \<le> msOfDay now \<and> msOfDay now < msPerDay"

definition isReasonableDate :: "clock \<Rightarrow> int \<Rightarrow> bool" where
  "isReasonableDate now date =
     (let oneYearAgo = newDate (year now - 1) (month now) (day now);
          oneMonthFuture = newDate (year now) (month now + 1) (day now)
      in oneYearAgo \<le> date \<and> date \<le> oneMonthFuture)"

definition parseDate :: "(string \<Rightarrow> int option) \<Rightarrow> string \<Rightarrow> int option" where
  "parseDate dateParse dateString = dateParse dateString"

definition calculateDateConfidence :: "string \<Rightarrow> nat \<Rightarrow> rat" where
  "calculateDateConfidence dateString patternIndex =
     (let c0 = 4 / 10;
          c1 = (if patternIndex = 0 then c0 + 3 / 10 else c0)
      in min c1 1)"

definition months :: "string list" where
  "months = [''jan'', ''feb'', ''mar'', ''apr'', ''may'', ''jun'',
             ''jul'', ''aug'', ''sep'', ''oct'', ''nov'', ''dec'']"

definition dayFirstDate :: "item list" where
  \<comment> \<open>\<^verbatim>\<open>/(\d{1,2})[\/\-](\d{1,2})[\/\-](\d{2,4})/g\<close>\<close>
  "dayFirstDate =
     [Rep isDigit 1 (Some 2), Rep isSlashOrDash 1 (Some 1), Rep isDigit 1 (Some 2),
      Rep isSlashOrDash 1 (Some 1), Rep isDigit 2 (Some 4)]"

definition yearFirstDate :: "item list" where
  \<comment> \<open>\<^verbatim>\<open>/(\d{4})[\/\-](\d{1,2})[\/\-](\d{1,2})/g\<close>\<close>
  "yearFirstDate =
     [Rep isDigit 4 (Some 4), Rep isSlashOrDash 1 (Some 1), Rep isDigit 1 (Some 2),
      Rep isSlashOrDash 1 (Some 1), Rep isDigit 1 (Some 2)]"

definition monthNameDate :: "item list" where
  \<comment> \<open>\<^verbatim>\<open>/(jan|feb|...|dec)[a-z]*\s+(\d{1,2}),?\s+(\d{4})/gi\<close>\<close>
  "monthNameDate =
     [Alt months, Rep isLetter 0 None, Rep isSpace 1 None, Rep isDigit 1 (Some 2),
      Rep isComma 0 (Some 1), Rep isSpace 1 None, Rep isDigit 4 (Some 4)]"

definition datePatterns :: "item list list" where
  "datePatterns = [dayFirstDate, yearFirstDate, monthNameDate]"

definition dateOfMatch ::
  "(string \<Rightarrow> int option) \<Rightarrow> clock \<Rightarrow> nat \<Rightarrow> string list \<Rightarrow> int extracted list" where
  "dateOfMatch dateParse now index ps =
     (case parseDate dateParse (concat ps) of
        None \<Rightarrow> []
      | Some dateObj \<Rightarrow>
          (if isReasonableDate now dateObj
           then [\<lparr>fvalue = dateObj, fconfidence = calculateDateConfidence (concat ps) index\<rparr>]
           else []))"

definition datesOfPattern ::
  "(string \<Rightarrow> int option) \<Rightarrow> clock \<Rightarrow> string \<Rightarrow> item list \<times> nat \<Rightarrow> int extracted list" where
  "datesOfPattern dateParse now text pat =
     (case pat of (p, index) \<Rightarrow> concat (map (dateOfMatch dateParse now index) (matchAll p text)))"

definition dateCandidates :: "(string \<Rightarrow> int option) \<Rightarrow> clock \<Rightarrow> string \<Rightarrow> int extracted list" where
  "dateCandidates dateParse now text =
     concat (map (datesOfPattern dateParse now text) (zip datePatterns [0 ..< length datePatterns]))"

definition extractDate :: "(string \<Rightarrow> int option) \<Rightarrow> clock \<Rightarrow> string \<Rightarrow> int extracted" where
  "extractDate dateParse now text =
     (case sort_key (\<lambda>d. - fconfidence d) (dateCandidates dateParse now text) of
        [] \<Rightarrow> \<lparr>fvalue = timeOf now, fconfidence = 0\<rparr>
      | d # _ \<Rightarrow> \<lparr>fvalue = fvalue d, fconfidence = fconfidence d\<rparr>)"

subsection \<open>Merchant name\<close>

definition allDigits :: "item list" where
  \<comment> \<open>\<^verbatim>\<open>/^\d+$/\<close>, anchored at the start by the caller\<close>
  "allDigits = [Rep isDigit 1 None, Eos]"

definition streetAddress :: "item list" where
  \<comment> \<open>\<^verbatim>\<open>/^\d+\s+[a-z\s]+/i\<close>, anchored at the start by the caller\<close>
  "streetAddress = [Rep isDigit 1 None, Rep isSpace 1 None, Rep isLetterOrSpace 1 None]"

definition dateLike :: "item list" where
  \<comment> \<open>\<^verbatim>\<open>/\d{1,4}[\/\-]\d{1,4}[\/\-]\d{1,4}/\<close>\<close>
  "dateLike =
     [Rep isDigit 1 (Some 4), Rep isSlashOrDash 1 (Some 1), Rep isDigit 1 (Some 4),
      Rep isSlashOrDash 1 (Some 1), Rep isDigit 1 (Some 4)]"

definition isLikelyMerchantName :: "string \<Rightarrow> bool" where
  "isLikelyMerchantName line =
     (if rmatch allDigits (filter (\<lambda>c. \<not> isSpace c) line) \<noteq> None then False
      else if rmatch streetAddress line \<noteq> None then False
      else if test dateLike line then False
      else 3 \<le> length line \<and> length line \<le> 50)"

definition calculateMerchantConfidence :: "string \<Rightarrow> nat \<Rightarrow> rat" where
  "calculateMerchantConfidence name position =
     (let c0 = 5 / 10;
          c1 = (if position < 3 then c0 + 3 / 10 else c0);
          c2 = (if 5 \<le> length name \<and> length name \<le> 30 then c1 + 2 / 10 else c1)
      in min c2 1)"

fun merchantLoop :: "string list \<Rightarrow> nat \<Rightarrow> string extracted" where
  \<comment> \<open>the \<^verbatim>\<open>for\<close> loop over the first five lines, \<open>i\<close> the index of the head\<close>
  "merchantLoop [] i = \<lparr>fvalue = [], fconfidence = 0\<rparr>"
| "merchantLoop (line # lines) i =
     (if 5 \<le> i then \<lparr>fvalue = [], fconfidence = 0\<rparr>
      else if isLikelyMerchantName line
      then \<lparr>fvalue = line, fconfidence = calculateMerchantConfidence line i\<rparr>
      else merchantLoop lines (Suc i))"

definition extractMerchantName :: "string \<Rightarrow> string extracted" where
  "extractMerchantName text =
     merchantLoop (filter (\<lambda>line. 0 < length line) (map trim (splitLines text))) 0"

subsection \<open>Line items\<close>

record lineItem =
  iname :: string
  iprice :: rat
  iconfidence :: rat

definition itemPattern :: "item list" where
  \<comment> \<open>\<^verbatim>\<open>/^(.+?)\s+\$?(\d+\.?\d{0,2})$/\<close>, anchored at the start by the caller;
      group 1 is item 0, group 2 the items 3, 4, 5\<close>
  "itemPattern =
     [RepLazy isDot 1 None, Rep isSpace 1 None, Rep isDollar 0 (Some 1),
      Rep isDigit 1 None, Rep isPoint 0 (Some 1), Rep isDigit 0 (Some 2), Eos]"

definition isLikelyTotalLine :: "string \<Rightarrow> bool" where
  "isLikelyTotalLine text =
     list_ex (\<lambda>word. includesStr (toLowerCase text) word)
       [''total'', ''amount'', ''subtotal'', ''tax'', ''balance'']"

definition calculateItemConfidence :: "string \<Rightarrow> rat \<Rightarrow> rat" where
  "calculateItemConfidence name price =
     (let c0 = 3 / 10;
          c1 = (if 3 \<le> length name \<and> length name \<le> 30 then c0 + 2 / 10 else c0);
          c2 = (if 1 / 2 \<le> price \<and> price \<le> 100 then c1 + 2 / 10 else c1)
      in min c2 1)"

definition itemOfLine :: "string \<Rightarrow> lineItem list" where
  \<comment> \<open>the body of the \<^verbatim>\<open>forEach\<close> over the lines\<close>
  "itemOfLine line =
     (case rmatch itemPattern (trim line) of
        None \<Rightarrow> []
      | Some ps \<Rightarrow>
          (if 2 < length (group 0 1 ps) \<and> length (group 0 1 ps) < 50
           then (let itemName = trim (group 0 1 ps)
                 in case parseFloat (group 3 3 ps) of
                      None \<Rightarrow> []
                    | Some price \<Rightarrow>
                        (if \<not> isLikelyTotalLine itemName \<and> 0 < price \<and> price < 1000
                         then [\<lparr>iname = itemName, iprice = price,
                                iconfidence = calculateItemConfidence itemName price\<rparr>]
                         else []))
           else []))"

definition extractLineItems :: "string \<Rightarrow> lineItem list" where
  "extractLineItems text = take 20 (concat (map itemOfLine (splitLines text)))"

subsection \<open>Tax amount\<close>

definition taxPatterns :: "item list list" where
  "taxPatterns = [keywordAmount ''tax'', keywordAmount ''hst'', keywordAmount ''gst'']"

definition matchGlobal :: "item list \<Rightarrow> string \<Rightarrow> string list option" where
  \<comment> \<open>\<^verbatim>\<open>text.match(re)\<close> for a pattern with the \<^verbatim>\<open>g\<close> flag: the array of the matched
      texts, without capture groups, or \<^verbatim>\<open>null\<close>\<close>
  "matchGlobal p text =
     (case map concat (matchAll p text) of [] \<Rightarrow> None | m # ms \<Rightarrow> Some (m # ms))"

definition taxOfPattern :: "string \<Rightarrow> item list \<Rightarrow> rat extracted option" where
  \<comment> \<open>one round of the \<^verbatim>\<open>for\<close> loop; \<^verbatim>\<open>match[1]\<close> is the second element of the
      array (\<^verbatim>\<open>undefined\<close>, parsed to \<^verbatim>\<open>NaN\<close>, when there is none)\<close>
  "taxOfPattern text p =
     (case matchGlobal p text of
        None \<Rightarrow> None
      | Some ms \<Rightarrow>
          (case (case ms of m0 # m1 # _ \<Rightarrow> parseFloat m1 | _ \<Rightarrow> None) of
             None \<Rightarrow> None
           | Some amount \<Rightarrow>
               (if 0 < amount \<and> amount < 1000
                then Some \<lparr>fvalue = amount, fconfidence = 8 / 10\<rparr>
                else None)))"

definition extractTaxAmount :: "string \<Rightarrow> rat extracted" where
  "extractTaxAmount text =
     (case firstOf (taxOfPattern text) taxPatterns of
        Some r \<Rightarrow> r
      | None \<Rightarrow> \<lparr>fvalue = 0, fconfidence = 0\<rparr>)"

subsection \<open>Category and payment method\<close>

definition categoryMappings :: "(string \<times> string list) list" where
  "categoryMappings =
     [(''groceries'', [''walmart'', ''target'', ''kroger'', ''safeway'', ''whole foods'',
                       ''costco'', ''grocery'']),
      (''food & dining'', [''mcdonalds'', ''burger king'', ''starbucks'', ''restaurant'',
                           ''cafe'', ''pizza'']),
      (''transportation'', [''shell'', ''exxon'', ''bp'', ''chevron'', ''gas'', ''fuel'',
                            ''uber'', ''lyft'']),
      (''shopping'', [''amazon'', ''mall'', ''store'', ''retail'']),
      (''healthcare'', [''pharmacy'', ''cvs'', ''walgreens'', ''hospital'', ''clinic''])]"

definition paymentMethods :: "(string \<times> string list) list" where
  "paymentMethods =
     [(''credit_card'', [''credit'', ''visa'', ''mastercard'', ''amex'']),
      (''debit_card'', [''debit'']),
      (''cash'', [''cash'', ''change'']),
      (''digital_wallet'', [''apple pay'', ''google pay'', ''paypal''])]"

definition lookupKeyword :: "(string \<times> string list) list \<Rightarrow> string \<Rightarrow> string option" where
  \<comment> \<open>the nested \<^verbatim>\<open>for\<close> loops over the entries and their keywords: the first entry
      with a keyword the text includes\<close>
  "lookupKeyword table textLower =
     firstOf (\<lambda>(label, keywords).
                if list_ex (\<lambda>keyword. includesStr textLower keyword) keywords
                then Some label else None) table"

definition suggestCategory :: "string \<Rightarrow> string extracted" where
  "suggestCategory text =
     (case lookupKeyword categoryMappings (toLowerCase text) of
        Some c \<Rightarrow> \<lparr>fvalue = c, fconfidence = 7 / 10\<rparr>
      | None \<Rightarrow> \<lparr>fvalue = ''other'', fconfidence = 3 / 10\<rparr>)"

definition extractPaymentMethod :: "string \<Rightarrow> string extracted" where
  "extractPaymentMethod text =
     (case lookupKeyword paymentMethods (toLowerCase text) of
        Some m \<Rightarrow> \<lparr>fvalue = m, fconfidence = 6 / 10\<rparr>
      | None \<Rightarrow> \<lparr>fvalue = ''other'', fconfidence = 1 / 10\<rparr>)"

subsection \<open>The parser of the heuristic tier\<close>

record receiptData =
  merchantName :: "string extracted"
  totalAmount :: "rat extracted"
  date :: "int extracted"
  items :: "lineItem list"
  taxAmount :: "rat extracted"
  category :: "string extracted"
  paymentMethod :: "string extracted"

definition getEmptyParsedData :: "clock \<Rightarrow> receiptData" where
  "getEmptyParsedData now =
     \<lparr>merchantName = \<lparr>fvalue = [], fconfidence = 0\<rparr>,
      totalAmount = \<lparr>fvalue = 0, fconfidence = 0\<rparr>,
      date = \<lparr>fvalue = timeOf now, fconfidence = 0\<rparr>,
      items = [],
      taxAmount = \<lparr>fvalue = 0, fconfidence = 0\<rparr>,
      category = \<lparr>fvalue = ''other'', fconfidence = 0\<rparr>,
      paymentMethod = \<lparr>fvalue = ''other'', fconfidence = 0\<rparr>\<rparr>"

definition parseReceiptData :: "(string \<Rightarrow> int option) \<Rightarrow> clock \<Rightarrow> string \<Rightarrow> receiptData" where
  "parseReceiptData dateParse now text =
     (if text = [] \<or> length (trim text) = 0 then getEmptyParsedData now
      else \<lparr>merchantName = extractMerchantName text,
            totalAmount = extractTotalAmount text,
            date = extractDate dateParse now text,
            items = extractLineItems text,
            taxAmount = extractTaxAmount text,
            category = suggestCategory text,
            paymentMethod = extractPaymentMethod text\<rparr>)"

section \<open>Vision tier\<close>

text \<open>
  The model's answer is parsed by \<^verbatim>\<open>JSON.parse\<close> into a value of the dynamic
  type \<open>jsval\<close>; an object lists its own properties, each key once. \<^verbatim>\<open>JSON.parse\<close>
  itself is the platform's and is a parameter \<open>jsonParse\<close>, \<open>None\<close> standing for the
  \<^verbatim>\<open>SyntaxError\<close> it throws. Numbers are rationals (a JSON number that overflows to
  \<^verbatim>\<open>Infinity\<close> compares like a large rational in every test made here).
\<close>

datatype jsval =
    JUndefined
  | JNull
  | JBool bool
  | JNum rat
  | JStr string
  | JArr "jsval list"
  | JObj "(string \<times> jsval) list"

fun getProp :: "jsval \<Rightarrow> string \<Rightarrow> jsval" where
  \<comment> \<open>\<^verbatim>\<open>v.key\<close> for a value that is neither \<^verbatim>\<open>null\<close> nor \<^verbatim>\<open>undefined\<close>, and a key
      that is no built-in property\<close>
  "getProp (JObj kvs) key = (case map_of kvs key of Some v \<Rightarrow> v | None \<Rightarrow> JUndefined)"
| "getProp v key = JUndefined"

fun truthy :: "jsval \<Rightarrow> bool" where
  "truthy JUndefined = False"
| "truthy JNull = False"
| "truthy (JBool b) = b"
| "truthy (JNum r) = (r \<noteq> 0)"
| "truthy (JStr s) = (s \<noteq> [])"
| "truthy (JArr xs) = True"
| "truthy (JObj kvs) = True"

definition jsOr :: "jsval \<Rightarrow> jsval \<Rightarrow> jsval" where
  \<comment> \<open>\<^verbatim>\<open>a || b\<close>\<close>
  "jsOr a b = (if truthy a then a else b)"

text \<open>
  Converting a parsed value to a primitive (\<^verbatim>\<open>ToPrimitive\<close>, in a comparison and in
  \<^verbatim>\<open>new Date(value)\<close>) calls the value's \<^verbatim>\<open>valueOf\<close> and \<^verbatim>\<open>toString\<close>. A parsed
  object inherits both; \<^verbatim>\<open>valueOf\<close> returns the object itself, so the conversion
  rests on \<^verbatim>\<open>toString\<close>. An own property \<^verbatim>\<open>toString\<close> of a parsed object is never a
  function and hides the inherited one: the conversion then throws a \<^verbatim>\<open>TypeError\<close>.
  The \<^verbatim>\<open>toString\<close> of an array joins the strings of its elements, so it throws when
  the conversion of an element does.
\<close>

fun throwsOnCoercion :: "jsval \<Rightarrow> bool" where
  "throwsOnCoercion (JObj kvs) = (''toString'' \<in> set (map fst kvs))"
| "throwsOnCoercion (JArr xs) = list_ex throwsOnCoercion xs"
| "throwsOnCoercion v = False"

definition typeErrorMessage :: string where
  \<comment> \<open>the message of the engine's \<^verbatim>\<open>TypeError\<close>\<close>
  "typeErrorMessage = ''Cannot convert object to primitive value''"

definition toNumber :: "(jsval \<Rightarrow> rat option) \<Rightarrow> jsval \<Rightarrow> string + rat option" where
  \<comment> \<open>\<^verbatim>\<open>ToNumber\<close>: \<open>Inl\<close> is the message of the \<^verbatim>\<open>TypeError\<close> thrown, \<open>Inr None\<close>
      is \<^verbatim>\<open>NaN\<close>. Reading a string as a number is the platform's (\<open>coerce\<close>), also
      for the string an array is joined to; an object without own \<^verbatim>\<open>toString\<close> is
      the string \<^verbatim>\<open>[object Object]\<close>, which is no number\<close>
  "toNumber coerce v =
     (case v of
        JUndefined \<Rightarrow> Inr None
      | JNull \<Rightarrow> Inr (Some 0)
      | JBool b \<Rightarrow> Inr (Some (if b then 1 else 0))
      | JNum r \<Rightarrow> Inr (Some r)
      | JStr s \<Rightarrow> Inr (coerce v)
      | JArr xs \<Rightarrow> (if throwsOnCoercion v then Inl typeErrorMessage else Inr (coerce v))
      | JObj kvs \<Rightarrow> (if throwsOnCoercion v then Inl typeErrorMessage else Inr None))"

definition jsGreater :: "(jsval \<Rightarrow> rat option) \<Rightarrow> jsval \<Rightarrow> rat \<Rightarrow> string + bool" where
  \<comment> \<open>\<^verbatim>\<open>v > r\<close> for a number \<open>r\<close>: the \<^verbatim>\<open>TypeError\<close> of the conversion, or the
      outcome of the comparison (false on \<^verbatim>\<open>NaN\<close>)\<close>
  "jsGreater coerce v r =
     (case toNumber coerce v of
        Inl msg \<Rightarrow> Inl msg
      | Inr None \<Rightarrow> Inr False
      | Inr (Some x) \<Rightarrow> Inr (r < x))"

record platform =
  dateParse :: "string \<Rightarrow> int option"
  jsonParse :: "string \<Rightarrow> jsval option"
  dateOfValue :: "jsval \<Rightarrow> int option"
  coerce :: "jsval \<Rightarrow> rat option"
  isoDay :: "int \<Rightarrow> string"

text \<open>
  \<open>dateParse\<close> is \<^verbatim>\<open>new Date(string)\<close>, \<open>dateOfValue\<close> is \<^verbatim>\<open>new Date(value)\<close> on
  a parsed value that converts to a primitive (\<open>None\<close>: an invalid date), \<open>isoDay\<close> is
  \<^verbatim>\<open>toISOString().split('T')[0]\<close>.
\<close>

record visionData =
  vMerchantName :: jsval
  vTotalAmount :: jsval
  vDate :: "int \<times> jsval"
  vItems :: jsval
  vTaxAmount :: jsval
  vCategory :: jsval
  vPaymentMethod :: jsval
  vSubtotal :: jsval

definition field :: "jsval \<Rightarrow> jsval \<Rightarrow> jsval" where
  \<comment> \<open>the object literal \<^verbatim>\<open>{ value: v, confidence: c }\<close>\<close>
  "field v c = JObj [(''value'', v), (''confidence'', c)]"

definition isNewline :: "char \<Rightarrow> bool" where
  "isNewline c \<longleftrightarrow> c = CHR 0x0A"

definition jsonFence :: "item list" where
  \<comment> \<open>\<^verbatim>\<open>/```json\n?/g\<close>\<close>
  "jsonFence = [Lit ''```json'', Rep isNewline 0 (Some 1)]"

definition fence :: "item list" where
  \<comment> \<open>\<^verbatim>\<open>/```\n?/g\<close>\<close>
  "fence = [Lit ''```'', Rep isNewline 0 (Some 1)]"

definition braces :: "item list" where
  \<comment> \<open>\<^verbatim>\<open>/\{[\s\S]*\}/\<close>: from the first opening brace to the last closing one\<close>
  "braces = [Lit ''{'', Rep isAny 0 None, Lit ''}'']"

definition jsonTextOf :: "string \<Rightarrow> string" where
  \<comment> \<open>the text handed to \<^verbatim>\<open>JSON.parse\<close>\<close>
  "jsonTextOf responseText =
     (let jsonText = removeAll_re fence (removeAll_re jsonFence (trim responseText))
      in case firstMatch braces jsonText of Some ps \<Rightarrow> concat ps | None \<Rightarrow> jsonText)"

definition fallbackStructure :: "platform \<Rightarrow> clock \<Rightarrow> string \<Rightarrow> jsval" where
  "fallbackStructure pf now responseText =
     JObj [(''merchantName'', field (JStr []) (JNum 0)),
           (''totalAmount'', field (JNum 0) (JNum 0)),
           (''date'', field (JStr (isoDay pf (timeOf now))) (JNum 0)),
           (''items'', JArr []),
           (''taxAmount'', field (JNum 0) (JNum 0)),
           (''category'', JObj [(''suggested'', JStr ''other''), (''confidence'', JNum 0)]),
           (''paymentMethod'', field (JStr ''other'') (JNum 0)),
           (''subtotal'', field (JNum 0) (JNum 0)),
           (''rawText'', JStr responseText),
           (''confidence'', JNum (1 / 10))]"

definition parseGeminiResponse :: "platform \<Rightarrow> clock \<Rightarrow> string \<Rightarrow> jsval" where
  "parseGeminiResponse pf now responseText =
     (case jsonParse pf (jsonTextOf responseText) of
        Some parsed \<Rightarrow> parsed
      | None \<Rightarrow> fallbackStructure pf now responseText)"

definition formatDateValue :: "platform \<Rightarrow> clock \<Rightarrow> jsval \<Rightarrow> int \<times> jsval" where
  \<comment> \<open>the third case is the \<^verbatim>\<open>catch\<close> block: \<^verbatim>\<open>new Date(dateObj.value)\<close> throws\<close>
  "formatDateValue pf now dateObj =
     (if \<not> truthy dateObj \<or> \<not> truthy (getProp dateObj ''value'') then (timeOf now, JNum 0)
      else if throwsOnCoercion (getProp dateObj ''value'') then (timeOf now, JNum 0)
      else ((case dateOfValue pf (getProp dateObj ''value'') of
               None \<Rightarrow> timeOf now
             | Some d \<Rightarrow> d),
            jsOr (getProp dateObj ''confidence'') (JNum 0)))"

definition formatParsedData :: "platform \<Rightarrow> clock \<Rightarrow> jsval \<Rightarrow> visionData" where
  "formatParsedData pf now geminiData =
     \<lparr>vMerchantName = jsOr (getProp geminiData ''merchantName'') (field (JStr []) (JNum 0)),
      vTotalAmount = jsOr (getProp geminiData ''totalAmount'') (field (JNum 0) (JNum 0)),
      vDate = formatDateValue pf now (getProp geminiData ''date''),
      vItems = jsOr (getProp geminiData ''items'') (JArr []),
      vTaxAmount = jsOr (getProp geminiData ''taxAmount'') (field (JNum 0) (JNum 0)),
      vCategory = jsOr (getProp geminiData ''category'')
                    (JObj [(''suggested'', JStr ''other''), (''confidence'', JNum 0)]),
      vPaymentMethod = jsOr (getProp geminiData ''paymentMethod'') (field (JStr ''other'') (JNum 0)),
      vSubtotal = jsOr (getProp geminiData ''subtotal'') (field (JNum 0) (JNum 0))\<rparr>"

section \<open>Results, the two tiers and the orchestrator\<close>

datatype parsedData = Parsed receiptData | Formatted visionData

record ocrResult =
  success :: bool
  error :: "string option"
  extractedText :: jsval
  parsedData :: parsedData
  confidence :: jsval
  processingTime :: int
  methodUsed :: string

text \<open>
  What the services reach outside the program during one run is given by a \<open>world\<close>:
  the clock, the environment variable, and the outcome of each external call, an
  exception being \<open>Inl\<close> of its message.
\<close>

record world =
  now :: clock
  elapsed :: int
  ocrMethodEnv :: "string option"
  geminiAvailable :: "string + bool"
  geminiResponse :: "string + string"
  extension :: string
  pdfImages :: "string + string list"
  preprocessed :: "string option"
  tesseractInit :: "string option"
  recognize :: "string \<Rightarrow> string + string \<times> rat"

text \<open>
  \<open>geminiAvailable\<close> is \<^verbatim>\<open>geminiOCRService.isAvailable()\<close> (the client library is
  constructed on the first call); \<open>geminiResponse\<close> is the joint outcome of the vision
  tier's external steps (conversion of a PDF, reading the file, the inference request)
  up to the text of the response; \<open>extension\<close> is
  \<^verbatim>\<open>path.extname(filePath).toLowerCase()\<close>; \<open>pdfImages\<close> the conversion of a PDF to
  page images; \<open>preprocessed\<close> the path written by the image preprocessing, \<open>None\<close>
  when it failed; \<open>tesseractInit\<close> the exception of the worker's initialisation, if
  any; \<open>recognize\<close> the recognition of one image, its text and its confidence in
  percent.
\<close>

definition failure :: "world \<Rightarrow> string \<Rightarrow> string \<Rightarrow> ocrResult" where
  \<comment> \<open>the object literal of the three \<^verbatim>\<open>catch\<close> blocks, which differ in \<^verbatim>\<open>method\<close>\<close>
  "failure w msg m =
     \<lparr>success = False, error = Some msg, extractedText = JStr [],
      parsedData = Parsed (getEmptyParsedData (now w)), confidence = JNum 0,
      processingTime = elapsed w, methodUsed = m\<rparr>"

definition geminiProcessReceipt :: "platform \<Rightarrow> world \<Rightarrow> string \<Rightarrow> ocrResult" where
  \<comment> \<open>\<^verbatim>\<open>GeminiOCRService.processReceipt\<close>; reading a property of \<^verbatim>\<open>null\<close> throws\<close>
  "geminiProcessReceipt pf w filePath =
     (case geminiAvailable w of
        Inl msg \<Rightarrow> failure w msg ''gemini''
      | Inr False \<Rightarrow> failure w ''Gemini API not configured'' ''gemini''
      | Inr True \<Rightarrow>
          (case geminiResponse w of
             Inl msg \<Rightarrow> failure w msg ''gemini''
           | Inr text \<Rightarrow>
               (let parsed = parseGeminiResponse pf (now w) text
                in if parsed = JNull
                   then failure w ''Cannot read properties of null (reading 'rawText')'' ''gemini''
                   else \<lparr>success = True, error = None,
                         extractedText = jsOr (getProp parsed ''rawText'') (JStr []),
                         parsedData = Formatted (formatParsedData pf (now w) parsed),
                         confidence = jsOr (getProp parsed ''confidence'') (JNum (8 / 10)),
                         processingTime = elapsed w, methodUsed = ''gemini''\<rparr>)))"

definition prepareImageFiles :: "world \<Rightarrow> string \<Rightarrow> string + string list" where
  "prepareImageFiles w filePath =
     (if extension w = ''.pdf''
      then (case pdfImages w of
              Inl msg \<Rightarrow> Inl (''Failed to convert PDF: '' @ msg)
            | Inr paths \<Rightarrow> Inr paths)
      else if extension w \<in> set [''.jpg'', ''.jpeg'', ''.png'', ''.bmp'', ''.tiff'']
      then Inr [case preprocessed w of Some processedPath \<Rightarrow> processedPath | None \<Rightarrow> filePath]
      else Inl (''Unsupported file type: '' @ extension w))"

definition extractTextFromImage :: "world \<Rightarrow> string \<Rightarrow> string + string \<times> rat" where
  "extractTextFromImage w imagePath =
     (case recognize w imagePath of
        Inl msg \<Rightarrow> Inl (''OCR failed: '' @ msg)
      | Inr (text, conf) \<Rightarrow> Inr (trim text, conf))"

fun recognizeAll :: "world \<Rightarrow> string list \<Rightarrow> string \<Rightarrow> rat list \<Rightarrow> string + string \<times> rat list" where
  \<comment> \<open>the \<^verbatim>\<open>for\<close> loop over the images, with \<^verbatim>\<open>combinedText\<close> and
      \<^verbatim>\<open>confidenceScores\<close>\<close>
  "recognizeAll w [] combinedText confidenceScores = Inr (combinedText, confidenceScores)"
| "recognizeAll w (imagePath # rest) combinedText confidenceScores =
     (case extractTextFromImage w imagePath of
        Inl msg \<Rightarrow> Inl msg
      | Inr (text, conf) \<Rightarrow>
          recognizeAll w rest (combinedText @ text @ [CHR 0x0A]) (confidenceScores @ [conf]))"

definition tesseractRun :: "world \<Rightarrow> string \<Rightarrow> string + string \<times> rat list" where
  \<comment> \<open>the \<^verbatim>\<open>try\<close> block of \<^verbatim>\<open>processWithTesseract\<close> up to the parsing: the first
      exception, or the combined text and the confidence scores\<close>
  "tesseractRun w filePath =
     (case prepareImageFiles w filePath of
        Inl msg \<Rightarrow> Inl msg
      | Inr imagePaths \<Rightarrow>
          (case tesseractInit w of
             Some msg \<Rightarrow> Inl msg
           | None \<Rightarrow> recognizeAll w imagePaths [] []))"

definition processWithTesseract :: "platform \<Rightarrow> world \<Rightarrow> string \<Rightarrow> ocrResult" where
  "processWithTesseract pf w filePath =
     (case tesseractRun w filePath of
        Inl msg \<Rightarrow> failure w msg ''tesseract''
      | Inr (combinedText, confidenceScores) \<Rightarrow>
          (let avgConfidence =
                 (if 0 < length confidenceScores
                  then sum_list confidenceScores / of_nat (length confidenceScores)
                  else 0)
           in \<lparr>success = True, error = None, extractedText = JStr (trim combinedText),
                parsedData = Parsed (parseReceiptData (dateParse pf) (now w) combinedText),
                confidence = JNum (avgConfidence / 100),
                processingTime = elapsed w, methodUsed = ''tesseract''\<rparr>))"

datatype tier = Vision | Heuristic

definition ocrMethod :: "world \<Rightarrow> string" where
  \<comment> \<open>\<^verbatim>\<open>process.env.OCR_METHOD || 'gemini'\<close>\<close>
  "ocrMethod w = (case ocrMethodEnv w of Some m \<Rightarrow> (if m = [] then ''gemini'' else m) | None \<Rightarrow> ''gemini'')"

definition processReceipt :: "platform \<Rightarrow> world \<Rightarrow> string \<Rightarrow> ocrResult \<times> tier list" where
  \<comment> \<open>\<^verbatim>\<open>OCRService.processReceipt\<close>: the result, and the tiers it invoked, in order.
      The tiers handle their own exceptions; the \<^verbatim>\<open>catch\<close> block of the orchestrator
      (method \<^verbatim>\<open>error\<close>) is reached when the availability check throws, and when
      \<^verbatim>\<open>geminiResult.confidence > 0.5\<close> throws, which \<^verbatim>\<open>&&\<close> evaluates only on a
      result that reports success\<close>
  "processReceipt pf w filePath =
     (if ocrMethod w = ''gemini''
      then (case geminiAvailable w of
              Inl msg \<Rightarrow> (failure w msg ''error'', [])
            | Inr True \<Rightarrow>
                (let geminiResult = geminiProcessReceipt pf w filePath
                 in if success geminiResult
                    then (case jsGreater (coerce pf) (confidence geminiResult) (1 / 2) of
                            Inl msg \<Rightarrow> (failure w msg ''error'', [Vision])
                          | Inr True \<Rightarrow> (geminiResult, [Vision])
                          | Inr False \<Rightarrow> (processWithTesseract pf w filePath, [Vision, Heuristic]))
                    else (processWithTesseract pf w filePath, [Vision, Heuristic]))
            | Inr False \<Rightarrow> (processWithTesseract pf w filePath, [Heuristic]))
      else (processWithTesseract pf w filePath, [Heuristic]))"

section \<open>The receipt document and its life cycle\<close>

record ocrResults =
  oExtractedText :: jsval
  oConfidence :: jsval
  oProcessedAt :: "int option"
  oProcessingTime :: int

record receipt =
  filePath :: string
  status :: string
  ocrResultsOf :: ocrResults
  parsedDataOf :: "parsedData option"
  processingAttempts :: int
  lastProcessingError :: "(string \<times> int) option"

definition newReceipt :: "string \<Rightarrow> receipt" where
  \<comment> \<open>\<^verbatim>\<open>Receipt.create\<close> in \<^verbatim>\<open>uploadReceipt\<close>, with the defaults of the schema\<close>
  "newReceipt path =
     \<lparr>filePath = path, status = ''uploaded'',
      ocrResultsOf = \<lparr>oExtractedText = JStr [], oConfidence = JNum 0, oProcessedAt = None,
                      oProcessingTime = 0\<rparr>,
      parsedDataOf = None, processingAttempts = 0, lastProcessingError = None\<rparr>"

text \<open>
  \<^verbatim>\<open>receipt.save()\<close> runs the \<^verbatim>\<open>pre('save')\<close> hook, validates the document against
  the schema and stores it, or throws. The schema's bounds on the paths the controller
  writes are \<^verbatim>\<open>processingAttempts: max 3\<close>, the \<^verbatim>\<open>enum\<close> of \<^verbatim>\<open>status\<close> and, for a
  numeric overall confidence, \<^verbatim>\<open>ocrResults.confidence: min 0, max 1\<close>; whether the
  persistence library accepts the rest of the result payload (the casts of
  \<^verbatim>\<open>ocrResults\<close> and \<^verbatim>\<open>parsedData\<close> to the schema's types, the bounds on the
  confidences of the parsed fields) is the parameter \<open>payloadOk\<close>. Failures of the
  database connection are not modelled.
\<close>

definition preSave :: "bool \<Rightarrow> int \<Rightarrow> receipt \<Rightarrow> receipt" where
  \<comment> \<open>the hook of the schema; \<open>textModified\<close> is
      \<^verbatim>\<open>this.isModified('ocrResults.extractedText')\<close>\<close>
  "preSave textModified t r =
     (if textModified \<and> truthy (oExtractedText (ocrResultsOf r))
      then r\<lparr>status := ''processed'', ocrResultsOf := (ocrResultsOf r)\<lparr>oProcessedAt := Some t\<rparr>\<rparr>
      else r)"

definition validate :: "(receipt \<Rightarrow> bool) \<Rightarrow> receipt \<Rightarrow> bool" where
  "validate payloadOk r \<longleftrightarrow>
     processingAttempts r \<le> 3 \<and>
     status r \<in> set [''uploaded'', ''processing'', ''processed'', ''failed''] \<and>
     (case oConfidence (ocrResultsOf r) of JNum c \<Rightarrow> 0 \<le> c \<and> c \<le> 1 | _ \<Rightarrow> True) \<and>
     payloadOk r"

definition save :: "(receipt \<Rightarrow> bool) \<Rightarrow> bool \<Rightarrow> int \<Rightarrow> receipt \<Rightarrow> string + receipt" where
  "save payloadOk textModified t r =
     (let r' = preSave textModified t r
      in if validate payloadOk r' then Inr r' else Inl ''ValidationError'')"

definition applyOcrResult :: "int \<Rightarrow> ocrResult \<Rightarrow> receipt \<Rightarrow> receipt" where
  \<comment> \<open>the \<^verbatim>\<open>if (ocrResult.success) ... else ...\<close> of \<^verbatim>\<open>processReceiptOCR\<close>\<close>
  "applyOcrResult t ocrResult r =
     (if success ocrResult
      then r\<lparr>ocrResultsOf := \<lparr>oExtractedText = extractedText ocrResult,
                                oConfidence = confidence ocrResult,
                                oProcessedAt = Some t,
                                oProcessingTime = processingTime ocrResult\<rparr>,
              parsedDataOf := Some (parsedData ocrResult),
              status := ''processed''\<rparr>
      else r\<lparr>status := ''failed'',
              lastProcessingError :=
                Some ((case error ocrResult of
                         Some msg \<Rightarrow> (if msg = [] then ''OCR processing failed'' else msg)
                       | None \<Rightarrow> ''OCR processing failed''), t),
              processingAttempts := processingAttempts r + 1\<rparr>)"

definition processReceiptOCR ::
  "platform \<Rightarrow> (receipt \<Rightarrow> bool) \<Rightarrow> world \<Rightarrow> receipt option \<Rightarrow> receipt option" where
  \<comment> \<open>from the stored document (\<open>None\<close>: \<^verbatim>\<open>findById\<close> finds nothing) to the stored
      document after the run. In the \<^verbatim>\<open>catch\<close> block the update document puts
      \<^verbatim>\<open>$inc\<close> under the field name; the persistence library cannot cast it for the
      numeric path and rejects the update, the inner \<^verbatim>\<open>catch\<close> swallows the rejection,
      and the stored document stays as last saved.\<close>
  "processReceiptOCR pf payloadOk w stored =
     (case stored of
        None \<Rightarrow> None
      | Some receipt \<Rightarrow>
          (case save payloadOk False (timeOf (now w)) (receipt\<lparr>status := ''processing''\<rparr>) of
             Inl e \<Rightarrow> Some receipt
           | Inr r1 \<Rightarrow>
               (let ocrResult = fst (processReceipt pf w (filePath r1));
                    r2 = applyOcrResult (timeOf (now w)) ocrResult r1;
                    textModified = (oExtractedText (ocrResultsOf r2) \<noteq> oExtractedText (ocrResultsOf r1))
                in case save payloadOk textModified (timeOf (now w)) r2 of
                     Inl e \<Rightarrow> Some r1
                   | Inr r3 \<Rightarrow> Some r3)))"

definition resetForReprocess :: "int \<Rightarrow> clock \<Rightarrow> receipt \<Rightarrow> receipt" where
  \<comment> \<open>the assignments of \<^verbatim>\<open>reprocessReceipt\<close> before its \<^verbatim>\<open>save\<close>\<close>
  "resetForReprocess t n r =
     r\<lparr>ocrResultsOf := \<lparr>oExtractedText = JStr [], oConfidence = JNum 0, oProcessedAt = None,
                         oProcessingTime = 0\<rparr>,
       parsedDataOf := Some (Parsed (getEmptyParsedData n)),
       status := ''uploaded'',
       processingAttempts := 0,
       lastProcessingError := None\<rparr>"

definition reprocessReset ::
  "(receipt \<Rightarrow> bool) \<Rightarrow> world \<Rightarrow> receipt option \<Rightarrow> string + receipt" where
  \<comment> \<open>\<^verbatim>\<open>reprocessReceipt\<close> up to and including its \<^verbatim>\<open>save\<close>: the stored document, or
      the error passed to the error handler\<close>
  "reprocessReset payloadOk w stored =
     (case stored of
        None \<Rightarrow> Inl ''Receipt not found''
      | Some receipt \<Rightarrow>
          save payloadOk (oExtractedText (ocrResultsOf receipt) \<noteq> JStr []) (timeOf (now w))
            (resetForReprocess (timeOf (now w)) (now w) receipt))"

definition reprocessReceipt ::
  "platform \<Rightarrow> (receipt \<Rightarrow> bool) \<Rightarrow> world \<Rightarrow> receipt option \<Rightarrow> receipt option" where
  \<comment> \<open>the reset, then the background run\<close>
  "reprocessReceipt pf payloadOk w stored =
     (case reprocessReset payloadOk w stored of
        Inl e \<Rightarrow> stored
      | Inr r \<Rightarrow> processReceiptOCR pf payloadOk w (Some r))"

datatype request = Upload string | AutoRun | Reprocess

fun handle :: "platform \<Rightarrow> (receipt \<Rightarrow> bool) \<Rightarrow> receipt option \<Rightarrow> request \<times> world \<Rightarrow> receipt option" where
  \<comment> \<open>one request on one document: the upload that creates it and starts a run, a further
      automatic run, or a reprocess request\<close>
  "handle pf payloadOk stored (Upload path, w) =
     (case stored of
        None \<Rightarrow> processReceiptOCR pf payloadOk w (Some (newReceipt path))
      | Some r \<Rightarrow> Some r)"
| "handle pf payloadOk stored (AutoRun, w) = processReceiptOCR pf payloadOk w stored"
| "handle pf payloadOk stored (Reprocess, w) = reprocessReceipt pf payloadOk w stored"

definition history ::
  "platform \<Rightarrow> (receipt \<Rightarrow> bool) \<Rightarrow> (request \<times> world) list \<Rightarrow> receipt option" where
  "history pf payloadOk reqs = foldl (handle pf payloadOk) None reqs"

section \<open>Vocabulary of the properties\<close>

definition visionAccepted :: "platform \<Rightarrow> world \<Rightarrow> string \<Rightarrow> bool" where
  \<comment> \<open>the acceptance test of the orchestrator on the vision tier's result\<close>
  "visionAccepted pf w path \<longleftrightarrow>
     success (geminiProcessReceipt pf w path) \<and>
     jsGreater (coerce pf) (confidence (geminiProcessReceipt pf w path)) (1 / 2) = Inr True"

definition thresholdRaises :: "platform \<Rightarrow> world \<Rightarrow> string \<Rightarrow> bool" where
  \<comment> \<open>the acceptance test throws: the vision result reports success and its confidence
      does not convert to a primitive\<close>
  "thresholdRaises pf w path \<longleftrightarrow>
     success (geminiProcessReceipt pf w path) \<and>
     isl (jsGreater (coerce pf) (confidence (geminiProcessReceipt pf w path)) (1 / 2))"

definition visionFinal :: "platform \<Rightarrow> world \<Rightarrow> string \<Rightarrow> bool" where
  \<comment> \<open>the vision tier is selected, configured, and its result is accepted\<close>
  "visionFinal pf w path \<longleftrightarrow>
     ocrMethod w = ''gemini'' \<and> geminiAvailable w = Inr True \<and> visionAccepted pf w path"

definition availabilityRaises :: "world \<Rightarrow> bool" where
  \<comment> \<open>the availability check is made and raises\<close>
  "availabilityRaises w \<longleftrightarrow> ocrMethod w = ''gemini'' \<and> isl (geminiAvailable w)"

definition orchestratorRaises :: "platform \<Rightarrow> world \<Rightarrow> string \<Rightarrow> bool" where
  \<comment> \<open>the \<^verbatim>\<open>try\<close> block of the orchestrator throws\<close>
  "orchestratorRaises pf w path \<longleftrightarrow>
     availabilityRaises w \<or>
     (ocrMethod w = ''gemini'' \<and> geminiAvailable w = Inr True \<and> thresholdRaises pf w path)"

definition confidenceOf :: "jsval \<Rightarrow> jsval" where
  "confidenceOf v = getProp v ''confidence''"

definition bounded :: "receipt option \<Rightarrow> bool" where
  "bounded stored \<longleftrightarrow> (case stored of None \<Rightarrow> True | Some r \<Rightarrow> processingAttempts r \<le> 3)"

definition noDigits :: "string \<Rightarrow> bool" where
  "noDigits s \<longleftrightarrow> list_all (\<lambda>c. \<not> isDigit c) s"

definition needsDigit :: "item list \<Rightarrow> bool" where
  \<comment> \<open>the pattern has a digit class repeated at least once\<close>
  "needsDigit p \<longleftrightarrow> list_ex (\<lambda>it. case it of Rep cls mn mx \<Rightarrow> cls = isDigit \<and> 0 < mn | _ \<Rightarrow> False) p"

fun conforms :: "item \<Rightarrow> string \<Rightarrow> bool" where
  \<comment> \<open>what the piece consumed by an item looks like\<close>
  "conforms (Lit w) x = (x = w)"
| "conforms (LitI w) x = list_all2 ciEq w x"
| "conforms (Rep cls mn mx) x =
     (list_all cls x \<and> mn \<le> length x \<and> (case mx of None \<Rightarrow> True | Some m \<Rightarrow> length x \<le> m))"
| "conforms (RepLazy cls mn mx) x =
     (list_all cls x \<and> mn \<le> length x \<and> (case mx of None \<Rightarrow> True | Some m \<Rightarrow> length x \<le> m))"
| "conforms (Alt ws) x = (\<exists>w\<in>set ws. list_all2 ciEq w x)"
| "conforms Eol x = (x = [])"
| "conforms Eos x = (x = [])"

definition yearFirstShape :: "string \<Rightarrow> bool" where
  \<comment> \<open>how a text starts that the year-first date pattern matches at its start\<close>
  "yearFirstShape s \<longleftrightarrow>
     (case s of
        a # b # c # d # e # f # _ \<Rightarrow>
          isDigit a \<and> isDigit b \<and> isDigit c \<and> isDigit d \<and> isSlashOrDash e \<and> isDigit f
      | _ \<Rightarrow> False)"

subsection \<open>Concrete inputs\<close>

definition examplePlatform :: platform where
  "examplePlatform =
     \<lparr>dateParse = (\<lambda>s. if s = ''01/15/2024'' then Some (newDate 2024 0 15) else None),
      jsonParse = (\<lambda>s. if s = ''{}'' then Some (JObj [])
                        else if s = ''{\"confidence\": 0.3}''
                        then Some (JObj [(''confidence'', JNum (3 / 10))])
                        else if s = ''{\"confidence\": {\"toString\": 1}}''
                        then Some (JObj [(''confidence'', JObj [(''toString'', JNum 1)])])
                        else None),
      dateOfValue = (\<lambda>v. None),
      coerce = (\<lambda>v. None),
      isoDay = (\<lambda>t. ''2024-02-20'')\<rparr>"

definition exampleClock :: clock where
  "exampleClock = \<lparr>year = 2024, month = 1, day = 20, msOfDay = 3600000\<rparr>"

definition exampleWorld :: world where
  \<comment> \<open>a PNG receipt, the vision tier configured and answering \<^verbatim>\<open>{}\<close>\<close>
  "exampleWorld =
     \<lparr>now = exampleClock, elapsed = 1200, ocrMethodEnv = None,
      geminiAvailable = Inr True, geminiResponse = Inr ''{}'',
      extension = ''.png'', pdfImages = Inl ''not a PDF'',
      preprocessed = Some ''receipt_processed.png'', tesseractInit = None,
      recognize = (\<lambda>p. Inr (''Total: $45.67'', 90))\<rparr>"

definition unsupportedWorld :: world where
  \<comment> \<open>a GIF receipt, the vision tier not configured\<close>
  "unsupportedWorld =
     exampleWorld\<lparr>geminiAvailable := Inr False, extension := ''.gif'', preprocessed := None,
                   recognize := (\<lambda>p. Inl ''cannot read image'')\<rparr>"

definition weakVisionWorld :: world where
  \<comment> \<open>a GIF receipt, the vision tier answering with overall confidence 0.3\<close>
  "weakVisionWorld =
     exampleWorld\<lparr>geminiResponse := Inr ''{\"confidence\": 0.3}'', extension := ''.gif''\<rparr>"

definition unconvertibleWorld :: world where
  \<comment> \<open>a PNG receipt, the vision tier answering with an object as overall confidence\<close>
  "unconvertibleWorld = exampleWorld\<lparr>geminiResponse := Inr ''{\"confidence\": {\"toString\": 1}}''\<rparr>"

definition unparsableWorld :: world where
  "unparsableWorld = exampleWorld\<lparr>geminiResponse := Inr ''I could not read this receipt.''\<rparr>"

definition failingWorld :: world where
  \<comment> \<open>a corrupted PNG: the vision tier not configured, the recognition raises\<close>
  "failingWorld =
     exampleWorld\<lparr>geminiAvailable := Inr False, recognize := (\<lambda>p. Inl ''cannot read image'')\<rparr>"

definition lateClock :: clock where
  "lateClock = \<lparr>year = 2025, month = 2, day = 1, msOfDay = 0\<rparr>"

definition acceptAll :: "receipt \<Rightarrow> bool" where
  "acceptAll r \<longleftrightarrow> True"

definition fourFailures :: "(request \<times> world) list" where
  "fourFailures =
     [(Upload ''receipt.png'', failingWorld), (AutoRun, failingWorld), (AutoRun, failingWorld),
      (AutoRun, failingWorld), (AutoRun, failingWorld)]"

section \<open>The pattern matcher\<close>

lemma firstDown_Some:
  "firstDown f lo hi = Some r \<Longrightarrow> \<exists>n. lo \<le> n \<and> n \<le> hi \<and> f n = Some r"
proof (induction hi)
  case 0
  then show ?case by (auto split: if_splits)
next
  case (Suc h)
  show ?case
  proof (cases "f (Suc h)")
    case None
    with Suc.prems have "firstDown f lo h = Some r" by (simp split: if_splits)
    from Suc.IH[OF this] show ?thesis by (auto intro: le_SucI)
  next
    case (Some a)
    with Suc.prems have "\<not> Suc h < lo" "f (Suc h) = Some r" by (auto split: if_splits)
    then show ?thesis by (intro exI[of _ "Suc h"]) simp
  qed
qed

lemma firstUp_Some:
  "firstUp f lo hi = Some r \<Longrightarrow> \<exists>n. lo \<le> n \<and> n \<le> hi \<and> f n = Some r"
proof (induction f lo hi rule: firstUp.induct)
  case (1 f lo hi)
  show ?case
  proof (cases "f lo")
    case None
    with 1 show ?thesis
      by (auto split: if_splits simp del: firstUp.simps simp add: firstUp.simps[of f lo hi]) (metis Suc_leD)
  next
    case (Some a)
    with 1 show ?thesis
      by (auto split: if_splits simp del: firstUp.simps simp add: firstUp.simps[of f lo hi])
  qed
qed

lemma firstOf_Some: "firstOf f ws = Some r \<Longrightarrow> \<exists>w\<in>set ws. f w = Some r"
  by (induction ws) (auto split: option.splits)

lemma countWhile_take:
  "n \<le> countWhile cls mx s \<Longrightarrow> list_all cls (take n s) \<and> n \<le> length s"
proof (induction s arbitrary: n mx)
  case Nil
  then show ?case by simp
next
  case (Cons c cs)
  then show ?case by (cases n) (auto split: if_splits)
qed

lemma countWhile_le_max: "countWhile cls (Some m) s \<le> m"
proof (induction s arbitrary: m)
  case Nil
  then show ?case by simp
next
  case (Cons c cs)
  show ?case
  proof (cases m)
    case 0
    then show ?thesis by simp
  next
    case (Suc k)
    with Cons[of k] show ?thesis by simp
  qed
qed

lemma litPrefix_eq_take: "litPrefix (=) w s \<Longrightarrow> take (length w) s = w"
  by (induction "(=) :: char \<Rightarrow> char \<Rightarrow> bool" w s rule: litPrefix.induct) auto

lemma litPrefix_take: "litPrefix eq w s \<Longrightarrow> list_all2 eq w (take (length w) s)"
  by (induction eq w s rule: litPrefix.induct) auto

lemma consume_Some:
  "consume n k s = Some ps \<Longrightarrow> \<exists>ps'. ps = take n s # ps' \<and> k (drop n s) = Some ps'"
  by (auto simp: consume_def)

lemma step_sound:
  "step it k s = Some ps \<Longrightarrow>
   \<exists>n ps'. ps = take n s # ps' \<and> k (drop n s) = Some ps' \<and> conforms it (take n s)"
proof (cases it)
  case (Lit w)
  assume "step it k s = Some ps"
  with Lit have "litPrefix (=) w s" "consume (length w) k s = Some ps"
    by (auto split: if_splits)
  with Lit show ?thesis
    using litPrefix_eq_take[of w s] by (auto dest!: consume_Some)
next
  case (LitI w)
  assume "step it k s = Some ps"
  with LitI have "litPrefix ciEq w s" "consume (length w) k s = Some ps"
    by (auto split: if_splits)
  with LitI show ?thesis
    using litPrefix_take[of ciEq w s] by (auto dest!: consume_Some)
next
  case (Rep cls mn mx)
  assume "step it k s = Some ps"
  with Rep obtain n where n: "mn \<le> n" "n \<le> countWhile cls mx s" "consume n k s = Some ps"
    by (auto dest: firstDown_Some)
  from n(2) have "list_all cls (take n s)" "n \<le> length s"
    using countWhile_take by blast+
  moreover have "case mx of None \<Rightarrow> True | Some m \<Rightarrow> length (take n s) \<le> m"
  proof (cases mx)
    case None
    then show ?thesis by simp
  next
    case (Some m)
    with n(2) countWhile_le_max[of cls m s] have "n \<le> m" by simp
    with Some show ?thesis by simp
  qed
  ultimately show ?thesis using n Rep
    by (auto dest!: consume_Some)
next
  case (RepLazy cls mn mx)
  assume "step it k s = Some ps"
  with RepLazy obtain n where n: "mn \<le> n" "n \<le> countWhile cls mx s" "consume n k s = Some ps"
    by (auto dest: firstUp_Some simp del: firstUp.simps)
  from n(2) have "list_all cls (take n s)" "n \<le> length s"
    using countWhile_take by blast+
  moreover have "case mx of None \<Rightarrow> True | Some m \<Rightarrow> length (take n s) \<le> m"
  proof (cases mx)
    case None
    then show ?thesis by simp
  next
    case (Some m)
    with n(2) countWhile_le_max[of cls m s] have "n \<le> m" by simp
    with Some show ?thesis by simp
  qed
  ultimately show ?thesis using n RepLazy
    by (auto dest!: consume_Some)
next
  case (Alt ws)
  assume "step it k s = Some ps"
  with Alt obtain w where "w \<in> set ws" "litPrefix ciEq w s" "consume (length w) k s = Some ps"
    by (auto dest!: firstOf_Some split: if_splits)
  with Alt show ?thesis
    by (auto dest!: consume_Some litPrefix_take)
next
  case Eol
  assume "step it k s = Some ps"
  with Eol show ?thesis
    by (auto split: if_splits dest!: consume_Some)
next
  case Eos
  assume "step it k s = Some ps"
  with Eos show ?thesis
    by (auto split: if_splits dest!: consume_Some)
qed

lemma rmatch_sound:
  "rmatch p s = Some ps \<Longrightarrow> list_all2 conforms p ps \<and> (\<exists>rest. s = concat ps @ rest)"
proof (induction p arbitrary: s ps)
  case Nil
  then show ?case by simp
next
  case (Cons it r)
  from Cons.prems obtain n ps' where
    st: "ps = take n s # ps'" "rmatch r (drop n s) = Some ps'" "conforms it (take n s)"
    using step_sound[of it "rmatch r" s ps] by auto
  from Cons.IH[OF st(2)] obtain rest where
    ih: "list_all2 conforms r ps'" "drop n s = concat ps' @ rest" by blast
  have "s = take n s @ drop n s" by simp
  with ih(2) have "s = concat ps @ rest" using st(1) by (metis append.assoc concat.simps(2))
  moreover have "list_all2 conforms (it # r) ps" using ih(1) st(1,3) by simp
  ultimately show ?case by blast
qed

lemma matchAll_member: "ps \<in> set (matchAll p s) \<Longrightarrow> \<exists>u. rmatch p u = Some ps"
  by (induction p s rule: matchAll.induct) (auto split: option.splits)

lemma noDigits_Nil [simp]: "noDigits []"
  by (simp add: noDigits_def)

lemma noDigits_Cons [simp]: "noDigits (c # cs) \<longleftrightarrow> \<not> isDigit c \<and> noDigits cs"
  by (simp add: noDigits_def)

lemma noDigits_append [simp]: "noDigits (a @ b) \<longleftrightarrow> noDigits a \<and> noDigits b"
  by (simp add: noDigits_def)

lemma noDigits_drop: "noDigits s \<Longrightarrow> noDigits (drop n s)"
  by (metis append_take_drop_id noDigits_append)

lemma countWhile_noDigits [simp]: "noDigits s \<Longrightarrow> countWhile isDigit mx s = 0"
  by (cases s) simp_all

lemma rmatch_needs_digit:
  assumes "needsDigit p" and "rmatch p s = Some ps"
  shows "\<not> noDigits s"
proof -
  from rmatch_sound[OF assms(2)] obtain rest where
    c: "list_all2 conforms p ps" and s: "s = concat ps @ rest" by blast
  from assms(1) obtain it where it: "it \<in> set p"
    "case it of Rep cls mn mx \<Rightarrow> cls = isDigit \<and> 0 < mn | _ \<Rightarrow> False"
    by (auto simp: needsDigit_def list_ex_iff)
  from it(2) obtain mn mx where r: "it = Rep isDigit mn mx" "0 < mn"
    by (cases it) auto
  from it(1) obtain i where i: "i < length p" "p ! i = it" by (auto simp: in_set_conv_nth)
  with c have "conforms it (ps ! i)" "i < length ps"
    by (auto simp: list_all2_conv_all_nth)
  with r have w: "list_all isDigit (ps ! i)" "0 < length (ps ! i)" "ps ! i \<in> set ps" by auto
  then obtain d where "d \<in> set (ps ! i)" "isDigit d"
    by (cases "ps ! i") auto
  with w(3) have "d \<in> set s" using s by auto
  with \<open>isDigit d\<close> show ?thesis by (auto simp: noDigits_def list_all_iff)
qed

lemma matchAll_noDigits: "needsDigit p \<Longrightarrow> noDigits s \<Longrightarrow> matchAll p s = []"
proof (induction s)
  case Nil
  then have "rmatch p [] = None" using rmatch_needs_digit[of p "[]"] by (cases "rmatch p []") auto
  then show ?case by simp
next
  case (Cons c cs)
  then have "rmatch p (c # cs) = None"
    using rmatch_needs_digit[of p "c # cs"] by (cases "rmatch p (c # cs)") auto
  with Cons show ?case by simp
qed

section \<open>The total amount recognizer\<close>

lemmas cls_defs = isDigit_def isSpace_def isColonOrSpace_def isDollar_def isPoint_def
  isLineTerminator_def ciEq_def toLowerChar_def isSlashOrDash_def isComma_def isLetter_def

lemma countWhile_Some0 [simp]: "countWhile cls (Some 0) s = 0"
  by (cases s) auto

lemma matchAll_skip:
  "(\<And>v u. pre = v @ u \<Longrightarrow> u \<noteq> [] \<Longrightarrow> rmatch p (u @ s) = None) \<Longrightarrow>
   matchAll p (pre @ s) = matchAll p s"
proof (induction pre)
  case Nil
  then show ?case by simp
next
  case (Cons c cs)
  have "rmatch p ((c # cs) @ s) = None"
    using Cons.prems[of "[]" "c # cs"] by simp
  moreover have "matchAll p (cs @ s) = matchAll p s"
  proof (rule Cons.IH)
    fix v u assume "cs = v @ u" "u \<noteq> []"
    then show "rmatch p (u @ s) = None" using Cons.prems[of "c # v" u] by simp
  qed
  ultimately show ?case by simp
qed

lemma toLowerChar_digit: "isDigit c \<Longrightarrow> toLowerChar c = c"
  unfolding isDigit_def toLowerChar_def by (elim disjE | simp)+

lemma isSpace_props: "isSpace c \<Longrightarrow> c \<noteq> CHR ''l'' \<and> \<not> isDigit c"
  unfolding isSpace_def isDigit_def by (elim disjE | simp)+



lemma ciEq_noDigits:
  "list_all2 ciEq w x \<Longrightarrow> list_all (\<lambda>p. \<not> isDigit (toLowerChar p)) w \<Longrightarrow> noDigits x"
proof (induction w x rule: list_all2_induct)
  case Nil
  then show ?case by (simp add: noDigits_def)
next
  case (Cons p ps c cs)
  have "\<not> isDigit c"
  proof
    assume "isDigit c"
    then have "toLowerChar c = c" by (rule toLowerChar_digit)
    with Cons.hyps(1) have "toLowerChar p = c" by (simp add: ciEq_def)
    with \<open>isDigit c\<close> Cons.prems show False by simp
  qed
  with Cons show ?case by (simp add: noDigits_def)
qed

lemma first_digit_unique:
  assumes "xs @ d # r = ys @ e # r'" "noDigits xs" "noDigits ys" "isDigit d" "isDigit e"
  shows "xs = ys"
proof -
  have "takeWhile (\<lambda>c. \<not> isDigit c) (xs @ d # r) = xs"
    using assms(2,4) by (simp add: noDigits_def list_all_iff takeWhile_tail)
  moreover have "takeWhile (\<lambda>c. \<not> isDigit c) (ys @ e # r') = ys"
    using assms(3,5) by (simp add: noDigits_def list_all_iff takeWhile_tail)
  ultimately show ?thesis using assms(1) by simp
qed



lemma total_match_here:
  "noDigits post \<Longrightarrow>
   rmatch (keywordAmount ''total'') (''Total: $45.67'' @ post) =
     Some [''Total'', '': '', ''$'', [], ''45'', ''.'', ''67'']"
  by (simp add: keywordAmount_def consume_def cls_defs)

lemma sort_key_head_min:
  "sort_key f xs = a # rest \<Longrightarrow> a \<in> set xs \<and> (\<forall>b\<in>set xs. f a \<le> f b)"
proof -
  assume h: "sort_key f xs = a # rest"
  have "sorted (map f (sort_key f xs))" by (rule sorted_sort_key)
  with h have "\<forall>b\<in>set rest. f a \<le> f b" by simp
  moreover have "set (a # rest) = set xs" using h by (metis set_sort)
  ultimately show ?thesis by auto
qed




















section \<open>The date recognizer\<close>

lemma needsDigit_date [simp]:
  "needsDigit dayFirstDate" "needsDigit yearFirstDate" "needsDigit monthNameDate"
  by (simp_all add: needsDigit_def dayFirstDate_def yearFirstDate_def monthNameDate_def)

lemma dayFirst_before:
  "u \<noteq> [] \<Longrightarrow> noDigits u \<Longrightarrow> rmatch dayFirstDate (u @ s) = None"
  by (cases u) (simp_all add: dayFirstDate_def)

lemma yearFirst_before:
  "u \<noteq> [] \<Longrightarrow> noDigits u \<Longrightarrow> rmatch yearFirstDate (u @ s) = None"
  by (cases u) (simp_all add: yearFirstDate_def)

lemma dayFirst_here:
  "matchAll dayFirstDate (''01/15/2024'' @ post) =
     [''01'', ''/'', ''15'', ''/'', ''2024''] # matchAll dayFirstDate post"
  by (simp add: dayFirstDate_def consume_def isDigit_def isSlashOrDash_def)

lemma dayFirst_text:
  assumes "noDigits pre" "noDigits post"
  shows "matchAll dayFirstDate (pre @ ''01/15/2024'' @ post) = [[''01'', ''/'', ''15'', ''/'', ''2024'']]"
proof -
  have "matchAll dayFirstDate (pre @ ''01/15/2024'' @ post) =
        matchAll dayFirstDate (''01/15/2024'' @ post)"
  proof (rule matchAll_skip)
    fix v u assume "pre = v @ u" "u \<noteq> []"
    with assms(1) have "noDigits u" by simp
    with \<open>u \<noteq> []\<close> show "rmatch dayFirstDate (u @ ''01/15/2024'' @ post) = None"
      by (rule dayFirst_before)
  qed
  then show ?thesis using assms(2) by (simp only: dayFirst_here matchAll_noDigits needsDigit_date)
qed

lemma firstDown_None: "(\<And>n. f n = None) \<Longrightarrow> firstDown f lo hi = None"
  by (induction hi) auto

lemma sep_then_digit:
  "noDigits s \<Longrightarrow> 0 < mn \<Longrightarrow>
   step (Rep cls lo hi) (rmatch (Rep isDigit mn mx # r)) s = None"
proof -
  assume n: "noDigits s" and m: "0 < mn"
  have "consume k (rmatch (Rep isDigit mn mx # r)) s = None" for k
  proof -
    have "noDigits (drop k s)" using n by (rule noDigits_drop)
    then have "rmatch (Rep isDigit mn mx # r) (drop k s) = None"
      using m by (cases mn) simp_all
    then show ?thesis by (simp add: consume_def)
  qed
  then show ?thesis by (simp add: firstDown_None)
qed

lemma yearFirst_shape:
  assumes "rmatch yearFirstDate s = Some ps"
  shows "yearFirstShape s"
proof -
  from rmatch_sound[OF assms] obtain rest where
    c: "list_all2 conforms yearFirstDate ps" and s: "s = concat ps @ rest" by blast
  from c obtain w0 w1 w2 w3 w4 where
    ps: "ps = [w0, w1, w2, w3, w4]" and
    w0: "list_all isDigit w0" "4 \<le> length w0" "length w0 \<le> 4" and
    w1: "list_all isSlashOrDash w1" "1 \<le> length w1" "length w1 \<le> 1" and
    w2: "list_all isDigit w2" "1 \<le> length w2"
    by (auto simp: yearFirstDate_def list_all2_Cons1)
  from w0 obtain a b c d where a: "w0 = [a, b, c, d]"
    by (cases w0; cases "tl w0"; cases "tl (tl w0)"; cases "tl (tl (tl w0))";
        cases "tl (tl (tl (tl w0)))") auto
  from w1 obtain e where e: "w1 = [e]" by (cases w1; cases "tl w1") auto
  from w2 obtain f w2' where f: "w2 = f # w2'" by (cases w2) auto
  show ?thesis using s ps a e f w0(1) w1(1) w2(1) by (simp add: yearFirstShape_def)
qed

lemma yearFirst_None: "\<not> yearFirstShape s \<Longrightarrow> rmatch yearFirstDate s = None"
  using yearFirst_shape by (cases "rmatch yearFirstDate s") auto

lemma yearFirst_suffixes:
  assumes "noDigits post"
  shows "rmatch yearFirstDate (''01/15/2024'' @ post) = None"
    "rmatch yearFirstDate (''1/15/2024'' @ post) = None"
    "rmatch yearFirstDate (''/15/2024'' @ post) = None"
    "rmatch yearFirstDate (''15/2024'' @ post) = None"
    "rmatch yearFirstDate (''5/2024'' @ post) = None"
    "rmatch yearFirstDate (''/2024'' @ post) = None"
    "rmatch yearFirstDate (''2024'' @ post) = None"
    "rmatch yearFirstDate (''024'' @ post) = None"
    "rmatch yearFirstDate (''24'' @ post) = None"
    "rmatch yearFirstDate (''4'' @ post) = None"
  using assms
  by (auto intro!: yearFirst_None simp: yearFirstShape_def isDigit_def isSlashOrDash_def
      split: list.splits)

lemma yearFirst_here:
  "noDigits post \<Longrightarrow> matchAll yearFirstDate (''01/15/2024'' @ post) = []"
  using yearFirst_suffixes[of post] matchAll_noDigits[OF needsDigit_date(2), of post]
  by simp

lemma yearFirst_text:
  assumes "noDigits pre" "noDigits post"
  shows "matchAll yearFirstDate (pre @ ''01/15/2024'' @ post) = []"
proof -
  have "matchAll yearFirstDate (pre @ ''01/15/2024'' @ post) =
        matchAll yearFirstDate (''01/15/2024'' @ post)"
  proof (rule matchAll_skip)
    fix v u assume "pre = v @ u" "u \<noteq> []"
    with assms(1) have "noDigits u" by simp
    with \<open>u \<noteq> []\<close> show "rmatch yearFirstDate (u @ ''01/15/2024'' @ post) = None"
      by (rule yearFirst_before)
  qed
  then show ?thesis using assms(2) by (simp only: yearFirst_here)
qed

lemma isLetter_not_digit: "isLetter c \<Longrightarrow> \<not> isDigit c"
proof
  assume l: "isLetter c" and d: "isDigit c"
  from d have "toLowerChar c = c" by (rule toLowerChar_digit)
  with l have "c \<in> set ''abcdefghijklmnopqrstuvwxyz''" by (simp add: isLetter_def)
  with d show False unfolding isDigit_def by (elim disjE | simp)+
qed

lemma months_noDigits:
  "w \<in> set months \<Longrightarrow> list_all (\<lambda>p. \<not> isDigit (toLowerChar p)) w"
  unfolding months_def by (elim disjE | simp add: isDigit_def toLowerChar_def)+

lemma monthName_before:
  assumes u: "u \<noteq> []" "noDigits u"
  shows "rmatch monthNameDate (u @ ''01/15/2024'' @ post) = None"
proof (rule ccontr)
  assume "rmatch monthNameDate (u @ ''01/15/2024'' @ post) \<noteq> None"
  then obtain ps where ps: "rmatch monthNameDate (u @ ''01/15/2024'' @ post) = Some ps" by auto
  from rmatch_sound[OF ps] obtain rest where
    c: "list_all2 conforms monthNameDate ps" and
    s: "u @ ''01/15/2024'' @ post = concat ps @ rest" by blast
  from c obtain m a w1 d1 cm w2 d2 where
    w: "ps = [m, a, w1, d1, cm, w2, d2]" and
    cf: "conforms (Alt months) m" "conforms (Rep isLetter 0 None) a"
      "conforms (Rep isSpace 1 None) w1" "conforms (Rep isDigit 1 (Some 2)) d1"
      "conforms (Rep isComma 0 (Some 1)) cm" "conforms (Rep isSpace 1 None) w2"
    unfolding monthNameDate_def list_all2_Cons1 by blast
  from cf have
    m: "\<exists>w\<in>set months. list_all2 ciEq w m" and
    a: "list_all isLetter a" and w1: "list_all isSpace w1" and
    d1: "list_all isDigit d1" "1 \<le> length d1" "length d1 \<le> 2" and
    cm: "list_all isComma cm" "length cm \<le> 1" and
    w2: "list_all isSpace w2" "1 \<le> length w2"
    by simp_all
  from m have nm: "noDigits m" using ciEq_noDigits months_noDigits by blast
  have na: "noDigits a" using a isLetter_not_digit by (auto simp: noDigits_def list_all_iff)
  have nw: "noDigits w1" using w1 isSpace_props by (auto simp: noDigits_def list_all_iff)
  from d1 obtain d d1' where d: "d1 = d # d1'" "isDigit d" "length d1' \<le> 1" "list_all isDigit d1'"
    by (cases d1) auto
  from w2 obtain sp w2' where sp: "w2 = sp # w2'" "isSpace sp" by (cases w2) auto
  have e: "u @ CHR ''0'' # (''1/15/2024'' @ post) = (m @ a @ w1) @ d # (d1' @ cm @ w2 @ d2 @ rest)"
    using s w d by simp
  moreover have "isDigit CHR ''0''" by (simp add: isDigit_def)
  moreover have "noDigits (m @ a @ w1)" using nm na nw by simp
  ultimately have "u = m @ a @ w1" using first_digit_unique u(2) d(2) by blast
  with e have "CHR ''0'' # (''1/15/2024'' @ post) = d # (d1' @ cm @ w2 @ d2 @ rest)"
    by (simp only: same_append_eq)
  then have "''1/15/2024'' @ post = d1' @ cm @ w2 @ d2 @ rest"
    by (metis list.inject)
  then have t: "''1/15/2024'' @ post = d1' @ cm @ sp # w2' @ d2 @ rest"
    using sp(1) by simp
  have ns: "\<not> isSpace CHR ''1''" "\<not> isSpace CHR ''/''" "\<not> isComma CHR ''1''" "\<not> isComma CHR ''/''"
    by (simp_all add: isSpace_def isComma_def)
  show False
  proof (cases d1')
    case Nil
    show False
    proof (cases cm)
      case Nil
      with \<open>d1' = []\<close> t sp(2) ns show False by simp
    next
      case (Cons x xs)
      with \<open>d1' = []\<close> t cm ns show False by simp
    qed
  next
    case (Cons e es)
    with d(3) have es: "es = []" by simp
    show False
    proof (cases cm)
      case Nil
      with Cons es t sp(2) ns show False by simp
    next
      case (Cons x xs)
      with \<open>d1' = e # es\<close> es t cm ns show False by simp
    qed
  qed
qed

lemma firstOf_None: "(\<And>w. w \<in> set ws \<Longrightarrow> f w = None) \<Longrightarrow> firstOf f ws = None"
  by (induction ws) auto

lemma ciEq_isLetter: "ciEq p c \<Longrightarrow> isLetter p \<Longrightarrow> isLetter c"
  by (simp add: ciEq_def isLetter_def)

lemma months_first_letter: "w \<in> set months \<Longrightarrow> w \<noteq> [] \<and> isLetter (hd w)"
  unfolding months_def by (elim disjE | simp add: isLetter_def toLowerChar_def)+

lemma monthName_first: "\<not> isLetter c \<Longrightarrow> rmatch monthNameDate (c # s) = None"
proof -
  assume n: "\<not> isLetter c"
  have "\<not> litPrefix ciEq w (c # s)" if "w \<in> set months" for w
  proof -
    from months_first_letter[OF that] obtain p ps where w: "w = p # ps" "isLetter p"
      by (cases w) auto
    with n ciEq_isLetter[of p c] show ?thesis by auto
  qed
  then show ?thesis by (simp add: monthNameDate_def firstOf_None)
qed

lemma date_chars_not_letters:
  "\<not> isLetter CHR ''0''" "\<not> isLetter CHR ''1''" "\<not> isLetter CHR ''2''" "\<not> isLetter CHR ''4''"
  "\<not> isLetter CHR ''5''" "\<not> isLetter CHR ''/''"
  by (simp_all add: isLetter_def toLowerChar_def)

lemma monthName_here:
  "noDigits post \<Longrightarrow> matchAll monthNameDate (''01/15/2024'' @ post) = []"
  using matchAll_noDigits[OF needsDigit_date(3), of post]
  by (simp add: monthName_first date_chars_not_letters)

lemma monthName_text:
  assumes "noDigits pre" "noDigits post"
  shows "matchAll monthNameDate (pre @ ''01/15/2024'' @ post) = []"
proof -
  have "matchAll monthNameDate (pre @ ''01/15/2024'' @ post) =
        matchAll monthNameDate (''01/15/2024'' @ post)"
  proof (rule matchAll_skip)
    fix v u assume "pre = v @ u" "u \<noteq> []"
    with assms(1) have "noDigits u" by simp
    with \<open>u \<noteq> []\<close> show "rmatch monthNameDate (u @ ''01/15/2024'' @ post) = None"
      by (rule monthName_before)
  qed
  then show ?thesis using assms(2) by (simp only: monthName_here)
qed

lemma datePatterns_indexed:
  "zip datePatterns [0 ..< length datePatterns] =
     [(dayFirstDate, 0), (yearFirstDate, 1), (monthNameDate, 2)]"
  by (simp add: datePatterns_def upt_rec)

lemma single_date_candidates:
  assumes "noDigits pre" "noDigits post" "dp ''01/15/2024'' = Some d"
  shows "dateCandidates dp t (pre @ ''01/15/2024'' @ post) =
           (if isReasonableDate t d then [\<lparr>fvalue = d, fconfidence = 7 / 10\<rparr>] else [])"
  unfolding dateCandidates_def datePatterns_indexed
  using dayFirst_text[OF assms(1,2)] yearFirst_text[OF assms(1,2)] monthName_text[OF assms(1,2)]
    assms(3)
  by (simp add: datesOfPattern_def dateOfMatch_def parseDate_def calculateDateConfidence_def)

lemma dateOfMatch_reasonable:
  "c \<in> set (dateOfMatch dp t i ps) \<Longrightarrow> isReasonableDate t (fvalue c) \<and> 0 < fconfidence c"
  by (auto simp: dateOfMatch_def calculateDateConfidence_def Let_def split: option.splits if_splits)

lemma dateCandidates_reasonable:
  "c \<in> set (dateCandidates dp t text) \<Longrightarrow> isReasonableDate t (fvalue c) \<and> 0 < fconfidence c"
  by (auto simp: dateCandidates_def datesOfPattern_def dest: dateOfMatch_reasonable)

lemma int_div_succ:
  fixes x k :: int
  assumes "1 < k"
  shows "(x + 1) div k = (if (x + 1) mod k = 0 then x div k + 1 else x div k)"
proof -
  let ?r = "x mod k"
  have r: "0 \<le> ?r" "?r < k" using assms by simp_all
  have e: "(x + 1) div k = x div k + (?r + 1) div k"
    using div_add1_eq[of x 1 k] assms by simp
  have m: "(x + 1) mod k = (?r + 1) mod k"
    using mod_add_left_eq[of x k 1] by simp
  show ?thesis
  proof (cases "?r + 1 = k")
    case True
    then show ?thesis using e m assms by simp
  next
    case False
    with r have lt: "?r + 1 < k" by simp
    then have "(?r + 1) div k = 0" "(?r + 1) mod k = ?r + 1" using r by simp_all
    then show ?thesis using e m r by simp
  qed
qed

lemma mod_400_100: "(z::int) mod 400 = 0 \<Longrightarrow> z mod 100 = 0"
proof -
  assume "z mod 400 = 0"
  then have "400 dvd z" by (simp only: mod_eq_0_iff_dvd)
  moreover have "(100::int) dvd 400" by simp
  ultimately have "100 dvd z" by (rule dvd_trans[rotated])
  then show ?thesis by (simp only: mod_eq_0_iff_dvd)
qed

lemma mod_4_pred: "(y::int) mod 4 = 0 \<Longrightarrow> (y - 1) mod 4 \<noteq> 0"
  by presburger

lemma mod_100_4: "(z::int) mod 100 = 0 \<Longrightarrow> z mod 4 = 0"
proof -
  assume "z mod 100 = 0"
  then have "100 dvd z" by (simp only: mod_eq_0_iff_dvd)
  moreover have "(4::int) dvd 100" by simp
  ultimately have "4 dvd z" by (rule dvd_trans[rotated])
  then show ?thesis by (simp only: mod_eq_0_iff_dvd)
qed

lemma dayFromYear_step:
  "dayFromYear y - dayFromYear (y - 1) \<le> 366 \<and>
   (y mod 4 = 0 \<longrightarrow> dayFromYear y - dayFromYear (y - 1) = 365)"
proof -
  define z where "z = y - 1"
  have a: "(z - 1968) div 4 - (z - 1969) div 4 = (if z mod 4 = 0 then 1 else 0)"
    using int_div_succ[of 4 "z - 1969"] mod_diff_right_eq[of z 1968 4] by simp
  have b: "(z - 1900) div 100 - (z - 1901) div 100 = (if z mod 100 = 0 then 1 else 0)"
    using int_div_succ[of 100 "z - 1901"] mod_diff_right_eq[of z 1900 100] by simp
  have c: "(z - 1600) div 400 - (z - 1601) div 400 = (if z mod 400 = 0 then 1 else 0)"
    using int_div_succ[of 400 "z - 1601"] mod_diff_right_eq[of z 1600 400] by simp
  have e: "dayFromYear y - dayFromYear (y - 1) =
        365 + ((z - 1968) div 4 - (z - 1969) div 4) - ((z - 1900) div 100 - (z - 1901) div 100)
            + ((z - 1600) div 400 - (z - 1601) div 400)"
    by (simp add: dayFromYear_def z_def)
  have f: "dayFromYear y - dayFromYear (y - 1) =
        365 + (if z mod 4 = 0 then 1 else 0) - (if z mod 100 = 0 then 1 else 0)
            + (if z mod 400 = 0 then 1 else 0)"
    unfolding e a b c ..
  have 1: "dayFromYear y - dayFromYear (y - 1) \<le> 366"
    unfolding f using mod_400_100[of z] by simp
  have 2: "dayFromYear y - dayFromYear (y - 1) = 365" if "y mod 4 = 0"
  proof -
    from that have "z mod 4 \<noteq> 0" unfolding z_def by (rule mod_4_pred)
    note z4 = this
    have z100: "z mod 100 \<noteq> 0" using z4 mod_100_4[of z] by (cases "z mod 100 = 0") simp_all
    have z400: "z mod 400 \<noteq> 0" using z100 mod_400_100[of z] by (cases "z mod 400 = 0") simp_all
    show ?thesis unfolding f using z4 z100 z400 by simp
  qed
  show ?thesis using 1 2 by blast
qed

lemma makeDay_year_back:
  assumes "0 \<le> m" "m \<le> 11"
  shows "makeDay y m d - 366 \<le> makeDay (y - 1) m d"
proof -
  have md: "m div 12 = 0" "m mod 12 = m" using assms by simp_all
  have e: "makeDay y m d - makeDay (y - 1) m d =
        (dayFromYear y - dayFromYear (y - 1)) +
        ((if isLeapYear y \<and> 2 \<le> m then 1 else 0) - (if isLeapYear (y - 1) \<and> 2 \<le> m then 1 else 0))"
    by (simp add: makeDay_def monthStart_def md Let_def)
  have "makeDay y m d - makeDay (y - 1) m d \<le> 366"
  proof (cases "isLeapYear y")
    case True
    then have "y mod 4 = 0" by (simp add: isLeapYear_def)
    with dayFromYear_step[of y] have "dayFromYear y - dayFromYear (y - 1) = 365" by blast
    then show ?thesis unfolding e by simp
  next
    case False
    with dayFromYear_step[of y] show ?thesis unfolding e by simp
  qed
  then show ?thesis by simp
qed

lemma old_date_rejected:
  assumes v: "validClock t" and old: "d \<le> timeOf t - 400 * msPerDay"
  shows "\<not> isReasonableDate t d"
proof -
  from v have y: "\<not> (0 \<le> year t - 1 \<and> year t - 1 \<le> 99)" and m: "0 \<le> month t" "month t \<le> 11"
    and ms: "msOfDay t < msPerDay" "0 \<le> msOfDay t"
    by (simp_all add: validClock_def)
  have "makeDay (year t) (month t) (day t) - 366 \<le> makeDay (year t - 1) (month t) (day t)"
    using m by (rule makeDay_year_back)
  then have "(makeDay (year t) (month t) (day t) - 366) * msPerDay
             \<le> makeDay (year t - 1) (month t) (day t) * msPerDay"
    by (simp add: msPerDay_def)
  moreover have "newDate (year t - 1) (month t) (day t) =
      makeDay (year t - 1) (month t) (day t) * msPerDay"
    using y by (auto simp: newDate_def)
  ultimately have "timeOf t - 400 * msPerDay < newDate (year t - 1) (month t) (day t)"
    using ms by (simp add: timeOf_def msPerDay_def algebra_simps)
  with old show ?thesis by (simp add: isReasonableDate_def Let_def)
qed

lemma example_reasonable: "isReasonableDate exampleClock (newDate 2024 0 15)"
  by (simp add: isReasonableDate_def exampleClock_def newDate_def makeDay_def dayFromYear_def
      monthStart_def isLeapYear_def msPerDay_def Let_def)

lemma late_old: "newDate 2024 0 15 \<le> timeOf lateClock - 400 * msPerDay"
  by (simp add: lateClock_def newDate_def timeOf_def makeDay_def dayFromYear_def
      monthStart_def isLeapYear_def msPerDay_def Let_def)








section \<open>The tax recognizer\<close>

lemma isSpace_not_letter: "isSpace c \<Longrightarrow> \<not> isLetter c"
  unfolding isSpace_def by (elim disjE | simp add: isLetter_def toLowerChar_def)+

lemma sign_not_letter:
  "\<not> isLetter CHR ''-''" "\<not> isLetter CHR ''+''" "\<not> isLetter CHR ''.''"
  by (simp_all add: isLetter_def toLowerChar_def)

lemma isLetter_parseFloat: "isLetter c \<Longrightarrow> parseFloat (c # s) = None"
proof -
  assume l: "isLetter c"
  then have "\<not> isSpace c" "\<not> isDigit c" using isSpace_not_letter isLetter_not_digit by blast+
  moreover have "c \<noteq> CHR ''-''" "c \<noteq> CHR ''+''" "c \<noteq> CHR ''.''"
    using l sign_not_letter by blast+
  ultimately show ?thesis by (simp add: parseFloat_def Let_def)
qed

lemma keyword_match_letter:
  assumes "isLetter k" "rmatch (keywordAmount (k # kw)) u = Some ps"
  shows "\<exists>c s. concat ps = c # s \<and> isLetter c"
proof -
  from assms(2) have "step (LitI (k # kw)) (rmatch (tl (keywordAmount (k # kw)))) u = Some ps"
    by (simp add: keywordAmount_def)
  then have l: "litPrefix ciEq (k # kw) u"
    and c: "consume (length (k # kw)) (rmatch (tl (keywordAmount (k # kw)))) u = Some ps"
    by (simp_all split: if_splits)
  from consume_Some[OF c] obtain ps' where ps: "ps = take (length (k # kw)) u # ps'" by blast
  from l obtain c cs where u: "u = c # cs" "ciEq k c" by (cases u) auto
  with assms(1) have "isLetter c" using ciEq_isLetter by blast
  with ps u show ?thesis by simp
qed

lemma taxPatterns_letter:
  assumes "p \<in> set taxPatterns"
  shows "\<exists>k kw. p = keywordAmount (k # kw) \<and> isLetter k"
proof -
  have l: "isLetter CHR ''t''" "isLetter CHR ''h''" "isLetter CHR ''g''"
    by (simp_all add: isLetter_def toLowerChar_def)
  from assms consider "p = keywordAmount (CHR ''t'' # ''ax'')"
    | "p = keywordAmount (CHR ''h'' # ''st'')" | "p = keywordAmount (CHR ''g'' # ''st'')"
    by (auto simp: taxPatterns_def)
  then show ?thesis using l by cases blast+
qed

lemma taxOfPattern_None:
  assumes "p \<in> set taxPatterns"
  shows "taxOfPattern text p = None"
proof (cases "matchGlobal p text")
  case None
  then show ?thesis by (simp add: taxOfPattern_def)
next
  case (Some ms)
  from taxPatterns_letter[OF assms] obtain k kw where p: "p = keywordAmount (k # kw)" "isLetter k"
    by blast
  from Some have ms: "ms = map concat (matchAll p text)"
    by (auto simp: matchGlobal_def split: list.splits)
  have "parseFloat m = None" if "m \<in> set ms" for m
  proof -
    from that ms obtain ps where ps: "ps \<in> set (matchAll p text)" "m = concat ps" by auto
    from matchAll_member[OF ps(1)] obtain u where "rmatch p u = Some ps" by blast
    with p have "rmatch (keywordAmount (k # kw)) u = Some ps" by simp
    from keyword_match_letter[OF p(2) this] ps(2) obtain c s where "m = c # s" "isLetter c"
      by auto
    then show ?thesis by (simp add: isLetter_parseFloat)
  qed
  then have "(case ms of m0 # m1 # _ \<Rightarrow> parseFloat m1 | _ \<Rightarrow> None) = None"
    by (cases ms; cases "tl ms") auto
  with Some show ?thesis by (simp add: taxOfPattern_def)
qed

lemma tax_example_match:
  "rmatch (keywordAmount ''tax'') ''Tax: $5.00'' = Some [''Tax'', '': '', ''$'', [], ''5'', ''.'', ''00'']"
  by (simp add: keywordAmount_def consume_def ciEq_def toLowerChar_def
      isColonOrSpace_def isSpace_def isDollar_def isDigit_def isPoint_def)

text \<open>
  \<^bold>\<open>C6\<close> (tax amount): the code diverges from the claim. The patterns carry the
  \<^verbatim>\<open>g\<close> flag, so \<^verbatim>\<open>text.match(pattern)\<close> is the array of the matched texts, without
  capture groups, and \<^verbatim>\<open>match[1]\<close> is the second matched text or \<^verbatim>\<open>undefined\<close>. A
  matched text starts with the letter of its keyword, so \<^verbatim>\<open>parseFloat(match[1])\<close> is
  \<^verbatim>\<open>NaN\<close>: on every text the recognizer returns value 0 with confidence 0. On
  \<^verbatim>\<open>Tax: $5.00\<close> the first pattern matches the whole text, with 5.00 in its group,
  and the recognizer returns value 0 with confidence 0, not 5.00 with confidence 0.8.
\<close>

theorem tax_recognizer_returns_zero:
  "extractTaxAmount text = \<lparr>fvalue = 0, fconfidence = 0\<rparr> \<and>
   map concat (matchAll (keywordAmount ''tax'') ''Tax: $5.00'') = [''Tax: $5.00''] \<and>
   map (group 4 3) (matchAll (keywordAmount ''tax'') ''Tax: $5.00'') = [''5.00''] \<and>
   parseFloat ''5.00'' = Some 5 \<and>
   extractTaxAmount ''Tax: $5.00'' = \<lparr>fvalue = 0, fconfidence = 0\<rparr>"
proof -
  have z: "extractTaxAmount t = \<lparr>fvalue = 0, fconfidence = 0\<rparr>" for t
    by (simp add: extractTaxAmount_def firstOf_None taxOfPattern_None)
  have m: "matchAll (keywordAmount ''tax'') ''Tax: $5.00'' =
      [[''Tax'', '': '', ''$'', [], ''5'', ''.'', ''00'']]"
    using tax_example_match by (simp add: keywordAmount_def)
  have p: "parseFloat ''5.00'' = Some 5"
    by (simp add: parseFloat_def isSpace_def isDigit_def digitsToNat_def digitVal_def Let_def)
  have c: "map concat (matchAll (keywordAmount ''tax'') ''Tax: $5.00'') = [''Tax: $5.00'']"
    unfolding m by simp
  have g: "map (group 4 3) (matchAll (keywordAmount ''tax'') ''Tax: $5.00'') = [''5.00'']"
    unfolding m by (simp add: group_def)
  show ?thesis using z[of "text"] z[of "''Tax: $5.00''"] p c g by blast
qed

section \<open>The parser of the heuristic tier and the clock\<close>

lemma dateOfMatch_day:
  assumes "year t = year t'" "month t = month t'" "day t = day t'"
  shows "dateOfMatch dp t = dateOfMatch dp t'"
  using assms by (intro ext) (simp add: dateOfMatch_def isReasonableDate_def split: option.splits)

lemma dateCandidates_day:
  assumes "year t = year t'" "month t = month t'" "day t = day t'"
  shows "dateCandidates dp t s = dateCandidates dp t' s"
proof -
  have "datesOfPattern dp t s = datesOfPattern dp t' s"
    by (intro ext) (simp add: datesOfPattern_def dateOfMatch_day[OF assms])
  then show ?thesis by (simp add: dateCandidates_def)
qed

lemma extractDate_day:
  assumes "year t = year t'" "month t = month t'" "day t = day t'"
  shows "fconfidence (extractDate dp t s) = fconfidence (extractDate dp t' s) \<and>
         (0 < fconfidence (extractDate dp t s) \<longrightarrow> extractDate dp t s = extractDate dp t' s) \<and>
         (fconfidence (extractDate dp t s) = 0 \<longrightarrow>
            fvalue (extractDate dp t s) = timeOf t \<and> fvalue (extractDate dp t' s) = timeOf t')"
proof (cases "sort_key (\<lambda>d. - fconfidence d) (dateCandidates dp t s)")
  case Nil
  then show ?thesis
    using dateCandidates_day[OF assms, of dp s] by (simp add: extractDate_def)
next
  case (Cons c rest)
  from sort_key_head_min[OF Cons] have "c \<in> set (dateCandidates dp t s)" by simp
  then have "0 < fconfidence c" using dateCandidates_reasonable by blast
  with Cons show ?thesis
    using dateCandidates_day[OF assms, of dp s] by (simp add: extractDate_def)
qed

lemma example_date_candidates:
  "dateCandidates (dateParse examplePlatform) t ''01/15/2024'' =
     (if isReasonableDate t (newDate 2024 0 15)
      then [\<lparr>fvalue = newDate 2024 0 15, fconfidence = 7 / 10\<rparr>] else [])"
  using single_date_candidates[of "[]" "[]" "dateParse examplePlatform" "newDate 2024 0 15" t]
  by (simp add: examplePlatform_def noDigits_def)

lemma example_text_nonempty: "''01/15/2024'' \<noteq> [] \<and> length (trim ''01/15/2024'') \<noteq> 0"
  by (simp add: trim_def isSpace_def)

lemma date_of_parse:
  "s \<noteq> [] \<and> length (trim s) \<noteq> 0 \<Longrightarrow> date (parseReceiptData dp t s) = extractDate dp t s"
  by (simp add: parseReceiptData_def)

lemma date_of_empty:
  "s = [] \<or> length (trim s) = 0 \<Longrightarrow>
   date (parseReceiptData dp t s) = \<lparr>fvalue = timeOf t, fconfidence = 0\<rparr>"
  by (simp add: parseReceiptData_def getEmptyParsedData_def)

lemma other_fields:
  "merchantName (parseReceiptData dp t s) = merchantName (parseReceiptData dp' t' s)"
  "totalAmount (parseReceiptData dp t s) = totalAmount (parseReceiptData dp' t' s)"
  "items (parseReceiptData dp t s) = items (parseReceiptData dp' t' s)"
  "taxAmount (parseReceiptData dp t s) = taxAmount (parseReceiptData dp' t' s)"
  "category (parseReceiptData dp t s) = category (parseReceiptData dp' t' s)"
  "paymentMethod (parseReceiptData dp t s) = paymentMethod (parseReceiptData dp' t' s)"
  by (simp_all add: parseReceiptData_def getEmptyParsedData_def)

lemma example_date_parsed:
  "date (parseReceiptData (dateParse examplePlatform) t ''01/15/2024'') =
     (if isReasonableDate t (newDate 2024 0 15)
      then \<lparr>fvalue = newDate 2024 0 15, fconfidence = 7 / 10\<rparr>
      else \<lparr>fvalue = timeOf t, fconfidence = 0\<rparr>)"
  unfolding date_of_parse[OF example_text_nonempty] extractDate_def example_date_candidates
  by simp

lemma late_unreasonable: "\<not> isReasonableDate lateClock (newDate 2024 0 15)"
  by (rule old_date_rejected[OF _ late_old])
     (simp add: validClock_def lateClock_def msPerDay_def)

text \<open>
  \<^bold>\<open>C9\<close> (determinism of the heuristic parser), as amended. The merchant, the total
  amount, the items, the tax, the category and the payment method that the parser
  returns depend on the text alone: they are the same at any processing time and with
  any date parser of the platform. The date field depends on the clock that the parser
  reads: two runs on the same text on the same calendar day return the same date
  confidence and, when a date is recognized (positive confidence), the same date; when
  none is recognized (confidence 0, also on an empty text) the value is the time of the
  run itself.
\<close>

theorem heuristic_parser_determinism:
  "merchantName (parseReceiptData dp t s) = merchantName (parseReceiptData dp' t' s) \<and>
   totalAmount (parseReceiptData dp t s) = totalAmount (parseReceiptData dp' t' s) \<and>
   items (parseReceiptData dp t s) = items (parseReceiptData dp' t' s) \<and>
   taxAmount (parseReceiptData dp t s) = taxAmount (parseReceiptData dp' t' s) \<and>
   category (parseReceiptData dp t s) = category (parseReceiptData dp' t' s) \<and>
   paymentMethod (parseReceiptData dp t s) = paymentMethod (parseReceiptData dp' t' s) \<and>
   (year t = year t' \<and> month t = month t' \<and> day t = day t' \<longrightarrow>
      fconfidence (date (parseReceiptData dp t s)) =
        fconfidence (date (parseReceiptData dp t' s)) \<and>
      (0 < fconfidence (date (parseReceiptData dp t s)) \<longrightarrow>
         date (parseReceiptData dp t s) = date (parseReceiptData dp t' s)) \<and>
      (fconfidence (date (parseReceiptData dp t s)) = 0 \<longrightarrow>
         fvalue (date (parseReceiptData dp t s)) = timeOf t \<and>
         fvalue (date (parseReceiptData dp t' s)) = timeOf t'))"
proof -
  have d: "fconfidence (date (parseReceiptData dp t s)) =
        fconfidence (date (parseReceiptData dp t' s)) \<and>
      (0 < fconfidence (date (parseReceiptData dp t s)) \<longrightarrow>
         date (parseReceiptData dp t s) = date (parseReceiptData dp t' s)) \<and>
      (fconfidence (date (parseReceiptData dp t s)) = 0 \<longrightarrow>
         fvalue (date (parseReceiptData dp t s)) = timeOf t \<and>
         fvalue (date (parseReceiptData dp t' s)) = timeOf t')"
    if same: "year t = year t' \<and> month t = month t' \<and> day t = day t'"
  proof (cases "s = [] \<or> length (trim s) = 0")
    case True
    then show ?thesis by (simp add: date_of_empty)
  next
    case False
    then have n: "s \<noteq> [] \<and> length (trim s) \<noteq> 0" by simp
    from same have "year t = year t'" "month t = month t'" "day t = day t'" by simp_all
    from extractDate_day[OF this, of dp s] show ?thesis
      unfolding date_of_parse[OF n] .
  qed
  from d other_fields[of dp t s dp' t'] show ?thesis by (intro conjI impI) simp_all
qed

lemma no_date_candidates: "noDigits s \<Longrightarrow> dateCandidates dp t s = []"
  unfolding dateCandidates_def datePatterns_indexed
  by (simp add: datesOfPattern_def matchAll_noDigits del: matchAll.simps)

lemma thank_you:
  "noDigits ''Thank you''" "''Thank you'' \<noteq> [] \<and> length (trim ''Thank you'') \<noteq> 0"
  by (simp_all add: noDigits_def isDigit_def trim_def isSpace_def)

lemma thank_you_date:
  "date (parseReceiptData dp t ''Thank you'') = \<lparr>fvalue = timeOf t, fconfidence = 0\<rparr>"
  unfolding date_of_parse[OF thank_you(2)] extractDate_def no_date_candidates[OF thank_you(1)]
  by simp

theorem heuristic_parser_determinism_witness:
  "year exampleClock = year (exampleClock\<lparr>msOfDay := 7200000\<rparr>) \<and>
   month exampleClock = month (exampleClock\<lparr>msOfDay := 7200000\<rparr>) \<and>
   day exampleClock = day (exampleClock\<lparr>msOfDay := 7200000\<rparr>) \<and>
   0 < fconfidence (date (parseReceiptData (dateParse examplePlatform) exampleClock ''01/15/2024'')) \<and>
   date (parseReceiptData (dateParse examplePlatform) (exampleClock\<lparr>msOfDay := 7200000\<rparr>) ''01/15/2024'') =
     \<lparr>fvalue = newDate 2024 0 15, fconfidence = 7 / 10\<rparr> \<and>
   fconfidence (date (parseReceiptData (dateParse examplePlatform) exampleClock ''Thank you'')) = 0 \<and>
   fvalue (date (parseReceiptData (dateParse examplePlatform) (exampleClock\<lparr>msOfDay := 7200000\<rparr>) ''Thank you'')) =
     timeOf (exampleClock\<lparr>msOfDay := 7200000\<rparr>) \<and>
   timeOf (exampleClock\<lparr>msOfDay := 7200000\<rparr>) \<noteq> timeOf exampleClock"
proof -
  let ?t' = "exampleClock\<lparr>msOfDay := 7200000\<rparr>"
  let ?dp = "dateParse examplePlatform"
  have e: "date (parseReceiptData ?dp exampleClock ''01/15/2024'') =
     \<lparr>fvalue = newDate 2024 0 15, fconfidence = 7 / 10\<rparr>"
    by (simp add: example_date_parsed example_reasonable)
  have z: "fconfidence (date (parseReceiptData ?dp exampleClock ''Thank you'')) = 0"
    by (simp add: thank_you_date)
  have tt: "timeOf ?t' \<noteq> timeOf exampleClock"
    by (simp add: timeOf_def exampleClock_def)
  from heuristic_parser_determinism [of ?dp exampleClock "''01/15/2024''" ?dp ?t']
  have 1: "date (parseReceiptData ?dp ?t' ''01/15/2024'') =
     \<lparr>fvalue = newDate 2024 0 15, fconfidence = 7 / 10\<rparr>"
    using e by simp
  from heuristic_parser_determinism [of ?dp exampleClock "''Thank you''" ?dp ?t']
  have 2: "fvalue (date (parseReceiptData ?dp ?t' ''Thank you'')) = timeOf ?t'"
    using z by simp
  show ?thesis using e 1 z 2 tt by simp
qed

theorem clock_dependence_counterexample:
  "date (parseReceiptData (dateParse examplePlatform) exampleClock ''01/15/2024'') =
     \<lparr>fvalue = newDate 2024 0 15, fconfidence = 7 / 10\<rparr> \<and>
   date (parseReceiptData (dateParse examplePlatform) lateClock ''01/15/2024'') =
     \<lparr>fvalue = timeOf lateClock, fconfidence = 0\<rparr> \<and>
   parseReceiptData (dateParse examplePlatform) exampleClock ''01/15/2024'' \<noteq>
     parseReceiptData (dateParse examplePlatform) lateClock ''01/15/2024'' \<and>
   fvalue (date (parseReceiptData (dateParse examplePlatform) exampleClock ''Thank you'')) = timeOf exampleClock \<and>
   fvalue (date (parseReceiptData (dateParse examplePlatform) lateClock ''Thank you'')) = timeOf lateClock \<and>
   timeOf exampleClock \<noteq> timeOf lateClock"
proof -
  have e: "date (parseReceiptData (dateParse examplePlatform) exampleClock ''01/15/2024'') =
     \<lparr>fvalue = newDate 2024 0 15, fconfidence = 7 / 10\<rparr>"
    by (simp add: example_date_parsed example_reasonable)
  have l: "date (parseReceiptData (dateParse examplePlatform) lateClock ''01/15/2024'') =
     \<lparr>fvalue = timeOf lateClock, fconfidence = 0\<rparr>"
    by (simp add: example_date_parsed late_unreasonable)
  have n: "parseReceiptData (dateParse examplePlatform) exampleClock ''01/15/2024'' \<noteq>
     parseReceiptData (dateParse examplePlatform) lateClock ''01/15/2024''"
  proof
    assume "parseReceiptData (dateParse examplePlatform) exampleClock ''01/15/2024'' =
     parseReceiptData (dateParse examplePlatform) lateClock ''01/15/2024''"
    then have "fconfidence (date (parseReceiptData (dateParse examplePlatform) exampleClock ''01/15/2024'')) =
      fconfidence (date (parseReceiptData (dateParse examplePlatform) lateClock ''01/15/2024''))"
      by simp
    then show False unfolding e l by simp
  qed
  have ty: "fvalue (date (parseReceiptData (dateParse examplePlatform) t ''Thank you'')) = timeOf t" for t
    by (simp add: thank_you_date)
  have tt: "timeOf exampleClock \<noteq> timeOf lateClock"
    by (simp add: timeOf_def exampleClock_def lateClock_def makeDay_def dayFromYear_def
        monthStart_def isLeapYear_def msPerDay_def Let_def)
  show ?thesis using e l n ty tt by simp
qed

section \<open>The orchestrator\<close>

lemma jsGreater_num: "jsGreater c (JNum x) r = Inr (r < x)"
  by (simp add: jsGreater_def toNumber_def)

lemma jsGreater_isl: "isl (jsGreater c v r) \<longleftrightarrow> throwsOnCoercion v"
  by (cases v) (simp_all add: jsGreater_def toNumber_def split: option.splits)

lemma jsGreater_Inl: "jsGreater c v r = Inl msg \<Longrightarrow> msg = typeErrorMessage"
  by (cases v) (simp_all add: jsGreater_def toNumber_def split: option.splits if_splits)

lemma jsonTextOf_braces: "jsonTextOf ''{}'' = ''{}''"
  by (simp add: jsonTextOf_def trim_def isSpace_def jsonFence_def fence_def braces_def
      consume_def isAny_def isNewline_def)

lemma jsonTextOf_weak: "jsonTextOf ''{\"confidence\": 0.3}'' = ''{\"confidence\": 0.3}''"
  by (simp add: jsonTextOf_def trim_def isSpace_def jsonFence_def fence_def braces_def
      consume_def isAny_def isNewline_def)

lemma jsonTextOf_unconvertible:
  "jsonTextOf ''{\"confidence\": {\"toString\": 1}}'' = ''{\"confidence\": {\"toString\": 1}}''"
  by (simp add: jsonTextOf_def trim_def isSpace_def jsonFence_def fence_def braces_def
      consume_def isAny_def isNewline_def)

lemma jsonTextOf_prose:
  "jsonTextOf ''I could not read this receipt.'' = ''I could not read this receipt.''"
  by (simp add: jsonTextOf_def trim_def isSpace_def jsonFence_def fence_def braces_def
      consume_def isAny_def isNewline_def)

lemma processReceipt_selected:
  assumes "ocrMethod w = ''gemini''" and "geminiAvailable w = Inr True"
  shows "processReceipt pf w path =
     (if thresholdRaises pf w path then (failure w typeErrorMessage ''error'', [Vision])
      else if visionAccepted pf w path then (geminiProcessReceipt pf w path, [Vision])
      else (processWithTesseract pf w path, [Vision, Heuristic]))"
proof (cases "success (geminiProcessReceipt pf w path)")
  case False
  with assms show ?thesis
    by (simp add: processReceipt_def thresholdRaises_def visionAccepted_def Let_def)
next
  case True
  show ?thesis
  proof (cases "jsGreater (coerce pf) (confidence (geminiProcessReceipt pf w path)) (1 / 2)")
    case (Inl msg)
    then have "msg = typeErrorMessage" by (rule jsGreater_Inl)
    with Inl True assms show ?thesis
      by (simp add: processReceipt_def thresholdRaises_def Let_def)
  next
    case (Inr b)
    with True assms show ?thesis
      by (cases b) (simp_all add: processReceipt_def thresholdRaises_def visionAccepted_def Let_def)
  qed
qed

lemma processReceipt_cases:
  "fst (processReceipt pf w path) =
     (if availabilityRaises w
      then failure w (case geminiAvailable w of Inl msg \<Rightarrow> msg | Inr b \<Rightarrow> []) ''error''
      else if orchestratorRaises pf w path then failure w typeErrorMessage ''error''
      else if visionFinal pf w path then geminiProcessReceipt pf w path
      else processWithTesseract pf w path)"
proof (cases "ocrMethod w = ''gemini''")
  case False
  then show ?thesis
    by (simp add: processReceipt_def availabilityRaises_def orchestratorRaises_def visionFinal_def)
next
  case sel: True
  show ?thesis
  proof (cases "geminiAvailable w")
    case (Inl msg)
    with sel show ?thesis by (simp add: processReceipt_def availabilityRaises_def)
  next
    case (Inr b)
    show ?thesis
    proof (cases b)
      case True
      with Inr sel show ?thesis
        by (simp add: processReceipt_selected availabilityRaises_def orchestratorRaises_def
            visionFinal_def)
    next
      case False
      with Inr sel show ?thesis
        by (simp add: processReceipt_def availabilityRaises_def orchestratorRaises_def
            visionFinal_def)
    qed
  qed
qed

lemma gemini_method: "methodUsed (geminiProcessReceipt pf w path) = ''gemini''"
  by (simp add: geminiProcessReceipt_def failure_def Let_def split: sum.splits bool.splits)

lemma tesseract_method: "methodUsed (processWithTesseract pf w path) = ''tesseract''"
  by (simp add: processWithTesseract_def failure_def Let_def split: sum.splits prod.splits)

lemma tesseract_success:
  "success (processWithTesseract pf w path) \<longleftrightarrow> (\<exists>out. tesseractRun w path = Inr out)"
  by (simp add: processWithTesseract_def failure_def Let_def split: sum.splits prod.splits)

lemma accepted_not_raising: "visionAccepted pf w path \<Longrightarrow> \<not> thresholdRaises pf w path"
  by (auto simp: visionAccepted_def thresholdRaises_def)

lemma raising_not_final: "orchestratorRaises pf w path \<Longrightarrow> \<not> visionFinal pf w path"
  by (auto simp: orchestratorRaises_def availabilityRaises_def visionFinal_def
      dest: accepted_not_raising)

lemma unconvertible_gemini:
  "success (geminiProcessReceipt examplePlatform unconvertibleWorld ''receipt.png'')"
  "confidence (geminiProcessReceipt examplePlatform unconvertibleWorld ''receipt.png'') =
     JObj [(''toString'', JNum 1)]"
  by (simp_all add: geminiProcessReceipt_def unconvertibleWorld_def exampleWorld_def
      examplePlatform_def parseGeminiResponse_def jsonTextOf_unconvertible Let_def jsOr_def)

lemma weak_gemini:
  "success (geminiProcessReceipt examplePlatform weakVisionWorld ''receipt.gif'')"
  "confidence (geminiProcessReceipt examplePlatform weakVisionWorld ''receipt.gif'') = JNum (3 / 10)"
  by (simp_all add: geminiProcessReceipt_def weakVisionWorld_def exampleWorld_def examplePlatform_def
      parseGeminiResponse_def jsonTextOf_weak Let_def jsOr_def)

lemma unconvertible_raises:
  "thresholdRaises examplePlatform unconvertibleWorld ''receipt.png''"
  by (simp add: thresholdRaises_def unconvertible_gemini jsGreater_isl)

lemma unconvertible_selected:
  "ocrMethod unconvertibleWorld = ''gemini''" "geminiAvailable unconvertibleWorld = Inr True"
  by (simp_all add: ocrMethod_def unconvertibleWorld_def exampleWorld_def)

text \<open>
  \<^bold>\<open>C1\<close> (tier selection), as amended. When the vision tier is selected and configured
  it is the first tier invoked, and the orchestrator returns its result, invoking
  nothing else, if and only if that result reports success and the test of its
  confidence against 0.5 succeeds. When that result reports success and its confidence
  cannot be converted to a primitive (an object with an own \<^verbatim>\<open>toString\<close>, an array
  holding one), the test throws: the orchestrator returns its own error result, method
  \<^verbatim>\<open>error\<close>, and the heuristic tier is not invoked. In the remaining cases of a
  configured vision tier (its result reports failure, or the test is false) the heuristic
  tier is invoked after it and its result returned as a whole. When the vision tier is not
  selected or not configured, the heuristic tier alone is invoked and its result
  returned; when the availability check raises, no tier is invoked and the error result
  returned. On a numeric confidence \<open>c\<close> the test is \<open>1/2 < c\<close>.
\<close>

theorem tier_selection:
  "(ocrMethod w = ''gemini'' \<and> geminiAvailable w = Inr True \<longrightarrow>
      hd (snd (processReceipt pf w path)) = Vision \<and>
      (processReceipt pf w path = (geminiProcessReceipt pf w path, [Vision])
         \<longleftrightarrow> success (geminiProcessReceipt pf w path) \<and>
             jsGreater (coerce pf) (confidence (geminiProcessReceipt pf w path)) (1 / 2) = Inr True) \<and>
      (success (geminiProcessReceipt pf w path) \<and>
       throwsOnCoercion (confidence (geminiProcessReceipt pf w path)) \<longrightarrow>
         processReceipt pf w path = (failure w typeErrorMessage ''error'', [Vision])) \<and>
      (\<not> success (geminiProcessReceipt pf w path) \<or>
       jsGreater (coerce pf) (confidence (geminiProcessReceipt pf w path)) (1 / 2) = Inr False \<longrightarrow>
         processReceipt pf w path = (processWithTesseract pf w path, [Vision, Heuristic]))) \<and>
   (ocrMethod w \<noteq> ''gemini'' \<or> geminiAvailable w = Inr False \<longrightarrow>
      processReceipt pf w path = (processWithTesseract pf w path, [Heuristic])) \<and>
   (ocrMethod w = ''gemini'' \<and> geminiAvailable w = Inl msg \<longrightarrow>
      processReceipt pf w path = (failure w msg ''error'', [])) \<and>
   (confidence (geminiProcessReceipt pf w path) = JNum c \<longrightarrow>
      jsGreater (coerce pf) (confidence (geminiProcessReceipt pf w path)) (1 / 2) = Inr (1 / 2 < c))"
proof -
  let ?g = "geminiProcessReceipt pf w path"
  let ?j = "jsGreater (coerce pf) (confidence ?g) (1 / 2)"
  have m: "(failure w typeErrorMessage ''error'', [Vision]) \<noteq> (?g, [Vision])"
  proof
    assume "(failure w typeErrorMessage ''error'', [Vision]) = (?g, [Vision])"
    then have "methodUsed (failure w typeErrorMessage ''error'') = methodUsed ?g" by simp
    then show False by (simp add: failure_def gemini_method)
  qed
  have sel: "hd (snd (processReceipt pf w path)) = Vision \<and>
      (processReceipt pf w path = (?g, [Vision]) \<longleftrightarrow> success ?g \<and> ?j = Inr True) \<and>
      (success ?g \<and> throwsOnCoercion (confidence ?g) \<longrightarrow>
         processReceipt pf w path = (failure w typeErrorMessage ''error'', [Vision])) \<and>
      (\<not> success ?g \<or> ?j = Inr False \<longrightarrow>
         processReceipt pf w path = (processWithTesseract pf w path, [Vision, Heuristic]))"
    if s: "ocrMethod w = ''gemini''" "geminiAvailable w = Inr True"
  proof -
    have t: "thresholdRaises pf w path \<longleftrightarrow> success ?g \<and> throwsOnCoercion (confidence ?g)"
      by (simp add: thresholdRaises_def jsGreater_isl)
    have a: "visionAccepted pf w path \<longleftrightarrow> success ?g \<and> ?j = Inr True"
      by (simp add: visionAccepted_def)
    have i: "?j = Inr b \<Longrightarrow> \<not> throwsOnCoercion (confidence ?g)" for b
      using jsGreater_isl[of "coerce pf" "confidence ?g" "1 / 2"] by auto
    show ?thesis
      unfolding processReceipt_selected[OF s] using m t a i
      by (cases "thresholdRaises pf w path"; cases "visionAccepted pf w path") auto
  qed
  have uns: "processReceipt pf w path = (processWithTesseract pf w path, [Heuristic])"
    if "ocrMethod w \<noteq> ''gemini'' \<or> geminiAvailable w = Inr False"
    using that by (auto simp: processReceipt_def)
  have av: "processReceipt pf w path = (failure w msg ''error'', [])"
    if "ocrMethod w = ''gemini''" "geminiAvailable w = Inl msg"
    using that by (simp add: processReceipt_def)
  have num: "?j = Inr (1 / 2 < c)" if "confidence ?g = JNum c"
    using that by (simp add: jsGreater_num)
  show ?thesis using sel uns av num by blast
qed

theorem tier_selection_witness:
  "ocrMethod exampleWorld = ''gemini'' \<and> geminiAvailable exampleWorld = Inr True \<and>
   visionAccepted examplePlatform exampleWorld ''receipt.png'' \<and>
   processReceipt examplePlatform exampleWorld ''receipt.png'' =
     (geminiProcessReceipt examplePlatform exampleWorld ''receipt.png'', [Vision]) \<and>
   ocrMethod unconvertibleWorld = ''gemini'' \<and> geminiAvailable unconvertibleWorld = Inr True \<and>
   success (geminiProcessReceipt examplePlatform unconvertibleWorld ''receipt.png'') \<and>
   throwsOnCoercion (confidence (geminiProcessReceipt examplePlatform unconvertibleWorld ''receipt.png'')) \<and>
   processReceipt examplePlatform unconvertibleWorld ''receipt.png'' =
     (failure unconvertibleWorld typeErrorMessage ''error'', [Vision]) \<and>
   ocrMethod weakVisionWorld = ''gemini'' \<and> geminiAvailable weakVisionWorld = Inr True \<and>
   jsGreater (coerce examplePlatform)
     (confidence (geminiProcessReceipt examplePlatform weakVisionWorld ''receipt.gif'')) (1 / 2) = Inr False \<and>
   processReceipt examplePlatform weakVisionWorld ''receipt.gif'' =
     (processWithTesseract examplePlatform weakVisionWorld ''receipt.gif'', [Vision, Heuristic]) \<and>
   ocrMethod unsupportedWorld = ''gemini'' \<and> geminiAvailable unsupportedWorld = Inr False \<and>
   processReceipt examplePlatform unsupportedWorld ''receipt.gif'' =
     (processWithTesseract examplePlatform unsupportedWorld ''receipt.gif'', [Heuristic]) \<and>
   geminiAvailable (exampleWorld\<lparr>geminiAvailable := Inl ''no client''\<rparr>) = Inl ''no client'' \<and>
   processReceipt examplePlatform (exampleWorld\<lparr>geminiAvailable := Inl ''no client''\<rparr>) ''receipt.png'' =
     (failure (exampleWorld\<lparr>geminiAvailable := Inl ''no client''\<rparr>) ''no client'' ''error'', [])"
proof -
  let ?n = "exampleWorld\<lparr>geminiAvailable := Inl ''no client''\<rparr>"
  have a: "ocrMethod exampleWorld = ''gemini''" "geminiAvailable exampleWorld = Inr True"
    "ocrMethod unsupportedWorld = ''gemini''" "geminiAvailable unsupportedWorld = Inr False"
    "ocrMethod weakVisionWorld = ''gemini''" "geminiAvailable weakVisionWorld = Inr True"
    "ocrMethod ?n = ''gemini''" "geminiAvailable ?n = Inl ''no client''"
    by (simp_all add: ocrMethod_def exampleWorld_def unsupportedWorld_def weakVisionWorld_def)
  have g: "success (geminiProcessReceipt examplePlatform exampleWorld ''receipt.png'')"
    "confidence (geminiProcessReceipt examplePlatform exampleWorld ''receipt.png'') = JNum (8 / 10)"
    by (simp_all add: exampleWorld_def examplePlatform_def geminiProcessReceipt_def
        parseGeminiResponse_def jsonTextOf_braces jsOr_def Let_def)
  have v: "visionAccepted examplePlatform exampleWorld ''receipt.png''"
    by (simp add: visionAccepted_def g jsGreater_num)
  have t: "throwsOnCoercion
      (confidence (geminiProcessReceipt examplePlatform unconvertibleWorld ''receipt.png''))"
    by (simp add: unconvertible_gemini)
  have k: "jsGreater (coerce examplePlatform)
     (confidence (geminiProcessReceipt examplePlatform weakVisionWorld ''receipt.gif'')) (1 / 2) = Inr False"
    by (simp add: weak_gemini jsGreater_num)
  from tier_selection [of exampleWorld examplePlatform "''receipt.png''" "[]" "8 / 10"]
  have 1: "processReceipt examplePlatform exampleWorld ''receipt.png'' =
     (geminiProcessReceipt examplePlatform exampleWorld ''receipt.png'', [Vision])"
    using a g by (simp add: jsGreater_num)
  from tier_selection [of unsupportedWorld examplePlatform "''receipt.gif''" "[]" 0]
  have 2: "processReceipt examplePlatform unsupportedWorld ''receipt.gif'' =
     (processWithTesseract examplePlatform unsupportedWorld ''receipt.gif'', [Heuristic])"
    using a by simp
  from tier_selection [of unconvertibleWorld examplePlatform "''receipt.png''" "[]" 0]
  have 3: "processReceipt examplePlatform unconvertibleWorld ''receipt.png'' =
     (failure unconvertibleWorld typeErrorMessage ''error'', [Vision])"
    using unconvertible_selected unconvertible_gemini(1) t by blast
  from tier_selection [of weakVisionWorld examplePlatform "''receipt.gif''" "[]" 0]
  have 4: "processReceipt examplePlatform weakVisionWorld ''receipt.gif'' =
     (processWithTesseract examplePlatform weakVisionWorld ''receipt.gif'', [Vision, Heuristic])"
    using a(5,6) k by blast
  from tier_selection [of ?n examplePlatform "''receipt.png''" "''no client''" 0]
  have 5: "processReceipt examplePlatform ?n ''receipt.png'' = (failure ?n ''no client'' ''error'', [])"
    using a(7,8) by blast
  show ?thesis
    using a(1-6,8) v 1 2 3 4 5 unconvertible_selected unconvertible_gemini(1) t k by blast
qed

theorem unconvertible_confidence_counterexample:
  "ocrMethod unconvertibleWorld = ''gemini'' \<and> geminiAvailable unconvertibleWorld = Inr True \<and>
   success (geminiProcessReceipt examplePlatform unconvertibleWorld ''receipt.png'') \<and>
   confidence (geminiProcessReceipt examplePlatform unconvertibleWorld ''receipt.png'') =
     JObj [(''toString'', JNum 1)] \<and>
   processReceipt examplePlatform unconvertibleWorld ''receipt.png'' =
     (failure unconvertibleWorld ''Cannot convert object to primitive value'' ''error'', [Vision]) \<and>
   fst (processReceipt examplePlatform unconvertibleWorld ''receipt.png'') \<noteq>
     geminiProcessReceipt examplePlatform unconvertibleWorld ''receipt.png'' \<and>
   Heuristic \<notin> set (snd (processReceipt examplePlatform unconvertibleWorld ''receipt.png''))"
proof -
  have p: "processReceipt examplePlatform unconvertibleWorld ''receipt.png'' =
     (failure unconvertibleWorld ''Cannot convert object to primitive value'' ''error'', [Vision])"
    by (simp add: processReceipt_selected[OF unconvertible_selected] unconvertible_raises
        typeErrorMessage_def)
  have e: "methodUsed (fst (processReceipt examplePlatform unconvertibleWorld ''receipt.png'')) = ''error''"
    by (simp add: p failure_def)
  have n: "fst (processReceipt examplePlatform unconvertibleWorld ''receipt.png'') \<noteq>
     geminiProcessReceipt examplePlatform unconvertibleWorld ''receipt.png''"
  proof
    assume "fst (processReceipt examplePlatform unconvertibleWorld ''receipt.png'') =
     geminiProcessReceipt examplePlatform unconvertibleWorld ''receipt.png''"
    with e have "methodUsed (geminiProcessReceipt examplePlatform unconvertibleWorld ''receipt.png'')
      = ''error''" by simp
    then show False by (simp add: gemini_method)
  qed
  show ?thesis using unconvertible_selected unconvertible_gemini p n by simp
qed

text \<open>
  \<^bold>\<open>C10\<close> (default overall confidence). When the vision tier is selected and
  configured and its response parses to a JSON object whose top-level confidence is
  absent, \<^verbatim>\<open>null\<close> or 0, the vision result reports success with overall confidence
  0.8, and the orchestrator returns it as final, the vision tier being the only tier
  invoked.
\<close>

theorem missing_confidence_default:
  assumes "ocrMethod w = ''gemini''" and "geminiAvailable w = Inr True"
    and "geminiResponse w = Inr text"
    and "jsonParse pf (jsonTextOf text) = Some (JObj kvs)"
    and "getProp (JObj kvs) ''confidence'' \<in> {JUndefined, JNull, JNum 0}"
  shows "success (geminiProcessReceipt pf w path) \<and>
         confidence (geminiProcessReceipt pf w path) = JNum (8 / 10) \<and>
         processReceipt pf w path = (geminiProcessReceipt pf w path, [Vision])"
proof -
  have c: "jsOr (getProp (JObj kvs) ''confidence'') (JNum (8 / 10)) = JNum (8 / 10)"
    using assms(5) by (auto simp: jsOr_def)
  have g: "success (geminiProcessReceipt pf w path)"
          "confidence (geminiProcessReceipt pf w path) = JNum (8 / 10)"
    using assms(2,3,4) c by (simp_all add: geminiProcessReceipt_def parseGeminiResponse_def Let_def)
  then show ?thesis
    using assms(1,2) by (simp add: processReceipt_def Let_def jsGreater_num)
qed

theorem missing_confidence_default_witness:
  "success (geminiProcessReceipt examplePlatform exampleWorld ''receipt.png'') \<and>
   confidence (geminiProcessReceipt examplePlatform exampleWorld ''receipt.png'') = JNum (8 / 10) \<and>
   processReceipt examplePlatform exampleWorld ''receipt.png'' =
     (geminiProcessReceipt examplePlatform exampleWorld ''receipt.png'', [Vision])"
  using missing_confidence_default [of exampleWorld "''{}''" examplePlatform "[]" "''receipt.png''"]
  by (simp add: ocrMethod_def exampleWorld_def examplePlatform_def jsonTextOf_braces)

text \<open>
  \<^bold>\<open>C8\<close> (unparsable response), as amended. When \<^verbatim>\<open>JSON.parse\<close> fails on the text
  extracted from the response, the vision tier does not raise: it reports success with
  method \<^verbatim>\<open>gemini\<close>, every field of its parsed data has confidence 0 and no items, and
  its overall confidence is 0.1 (not 0); that result fails the acceptance test of the
  orchestrator.
\<close>

theorem unparsable_response_fallback:
  assumes "geminiAvailable w = Inr True" and "geminiResponse w = Inr text"
    and "jsonParse pf (jsonTextOf text) = None"
  shows "success (geminiProcessReceipt pf w path) \<and>
         methodUsed (geminiProcessReceipt pf w path) = ''gemini'' \<and>
         confidence (geminiProcessReceipt pf w path) = JNum (1 / 10) \<and>
         (\<exists>v. parsedData (geminiProcessReceipt pf w path) = Formatted v \<and>
              confidenceOf (vMerchantName v) = JNum 0 \<and> confidenceOf (vTotalAmount v) = JNum 0 \<and>
              snd (vDate v) = JNum 0 \<and> vItems v = JArr [] \<and>
              confidenceOf (vTaxAmount v) = JNum 0 \<and> confidenceOf (vCategory v) = JNum 0 \<and>
              confidenceOf (vPaymentMethod v) = JNum 0 \<and> confidenceOf (vSubtotal v) = JNum 0) \<and>
         \<not> visionAccepted pf w path"
  using assms
  by (simp add: geminiProcessReceipt_def parseGeminiResponse_def fallbackStructure_def Let_def
      formatParsedData_def formatDateValue_def jsOr_def field_def confidenceOf_def
      visionAccepted_def jsGreater_num)

theorem unparsable_response_fallback_witness:
  "confidence (geminiProcessReceipt examplePlatform unparsableWorld ''receipt.png'') = JNum (1 / 10) \<and>
   \<not> visionAccepted examplePlatform unparsableWorld ''receipt.png''"
  using unparsable_response_fallback [of unparsableWorld "''I could not read this receipt.''"
      examplePlatform "''receipt.png''"]
  by (simp add: unparsableWorld_def exampleWorld_def examplePlatform_def jsonTextOf_prose)

theorem unparsable_response_counterexample:
  "geminiResponse unparsableWorld = Inr ''I could not read this receipt.'' \<and>
   jsonParse examplePlatform (jsonTextOf ''I could not read this receipt.'') = None \<and>
   confidence (geminiProcessReceipt examplePlatform unparsableWorld ''receipt.png'') \<noteq> JNum 0"
  by (simp add: unparsableWorld_def exampleWorld_def examplePlatform_def jsonTextOf_prose
      geminiProcessReceipt_def parseGeminiResponse_def fallbackStructure_def jsOr_def)

lemma unsupported_facts:
  "tesseractRun unsupportedWorld ''receipt.gif'' = Inl ''Unsupported file type: .gif''"
  "\<not> visionFinal examplePlatform unsupportedWorld ''receipt.gif''"
  "\<not> orchestratorRaises examplePlatform unsupportedWorld ''receipt.gif''"
  by (simp_all add: tesseractRun_def prepareImageFiles_def unsupportedWorld_def exampleWorld_def
      visionFinal_def orchestratorRaises_def availabilityRaises_def)

text \<open>
  \<^bold>\<open>C7\<close> (failing input), as amended. The orchestrator always returns a result
  object. When the heuristic tier raises (an unsupported file type, a failed conversion,
  initialisation or recognition), no vision result is accepted as final and the
  orchestrator's own \<^verbatim>\<open>try\<close> block does not throw, the result is the heuristic
  tier's own error result: no success, confidence 0, the error message attached, and
  method \<^verbatim>\<open>tesseract\<close>. Method \<^verbatim>\<open>error\<close> is returned exactly when the \<^verbatim>\<open>try\<close>
  block of the orchestrator throws, that is when the availability check of the vision
  tier raises or the test of a successful vision result's confidence against 0.5
  throws; then the result reports no success and confidence 0, and the heuristic tier
  is not invoked. A file whose extension is none of the supported ones makes the
  heuristic tier raise.
\<close>

theorem heuristic_failure_result:
  assumes "tesseractRun w path = Inl msg" and "\<not> visionFinal pf w path"
    and "\<not> orchestratorRaises pf w path"
  shows "fst (processReceipt pf w path) = failure w msg ''tesseract'' \<and>
         success (fst (processReceipt pf w path)) = False \<and>
         confidence (fst (processReceipt pf w path)) = JNum 0 \<and>
         error (fst (processReceipt pf w path)) = Some msg \<and>
         methodUsed (fst (processReceipt pf w path)) = ''tesseract'' \<and>
         (\<forall>pf' w' path'. methodUsed (fst (processReceipt pf' w' path')) = ''error''
             \<longleftrightarrow> orchestratorRaises pf' w' path') \<and>
         (\<forall>pf' w' path'. orchestratorRaises pf' w' path' \<longrightarrow>
             \<not> success (fst (processReceipt pf' w' path')) \<and>
             confidence (fst (processReceipt pf' w' path')) = JNum 0 \<and>
             Heuristic \<notin> set (snd (processReceipt pf' w' path'))) \<and>
         (\<forall>w' path'. extension w' \<notin> set [''.pdf'', ''.jpg'', ''.jpeg'', ''.png'', ''.bmp'', ''.tiff'']
             \<longrightarrow> tesseractRun w' path' = Inl (''Unsupported file type: '' @ extension w'))"
proof -
  have 1: "fst (processReceipt pf w path) = failure w msg ''tesseract''"
    using assms
    by (auto simp: processReceipt_cases orchestratorRaises_def processWithTesseract_def)
  have 2: "methodUsed (fst (processReceipt pf' w' path')) = ''error''
             \<longleftrightarrow> orchestratorRaises pf' w' path'"
    for pf' w' path'
    by (simp add: processReceipt_cases orchestratorRaises_def gemini_method tesseract_method
        failure_def)
  have 3: "tesseractRun w' path' = Inl (''Unsupported file type: '' @ extension w')"
    if "extension w' \<notin> set [''.pdf'', ''.jpg'', ''.jpeg'', ''.png'', ''.bmp'', ''.tiff'']"
    for w' path'
    using that by (simp add: tesseractRun_def prepareImageFiles_def)
  have 4: "\<not> success (fst (processReceipt pf' w' path')) \<and>
           confidence (fst (processReceipt pf' w' path')) = JNum 0 \<and>
           Heuristic \<notin> set (snd (processReceipt pf' w' path'))"
    if r: "orchestratorRaises pf' w' path'" for pf' w' path'
  proof (cases "availabilityRaises w'")
    case True
    then show ?thesis
      by (cases "geminiAvailable w'") (simp_all add: availabilityRaises_def processReceipt_def failure_def)
  next
    case False
    with r have s: "ocrMethod w' = ''gemini''" "geminiAvailable w' = Inr True"
      and t: "thresholdRaises pf' w' path'"
      by (simp_all add: orchestratorRaises_def)
    show ?thesis by (simp add: processReceipt_selected[OF s] t failure_def)
  qed
  show ?thesis using 1 2 3 4 by (simp add: failure_def)
qed

lemma unconvertible_orchestrator:
  "orchestratorRaises examplePlatform unconvertibleWorld ''receipt.png''"
  by (simp add: orchestratorRaises_def unconvertible_selected unconvertible_raises)

theorem heuristic_failure_result_witness:
  "tesseractRun unsupportedWorld ''receipt.gif'' = Inl ''Unsupported file type: .gif'' \<and>
   \<not> visionFinal examplePlatform unsupportedWorld ''receipt.gif'' \<and>
   \<not> orchestratorRaises examplePlatform unsupportedWorld ''receipt.gif'' \<and>
   fst (processReceipt examplePlatform unsupportedWorld ''receipt.gif'') =
     failure unsupportedWorld ''Unsupported file type: .gif'' ''tesseract'' \<and>
   orchestratorRaises examplePlatform unconvertibleWorld ''receipt.png'' \<and>
   methodUsed (fst (processReceipt examplePlatform unconvertibleWorld ''receipt.png'')) = ''error'' \<and>
   Heuristic \<notin> set (snd (processReceipt examplePlatform unconvertibleWorld ''receipt.png'')) \<and>
   extension unsupportedWorld \<notin> set [''.pdf'', ''.jpg'', ''.jpeg'', ''.png'', ''.bmp'', ''.tiff'']"
proof -
  note h = heuristic_failure_result [OF unsupported_facts]
  have e: "extension unsupportedWorld \<notin> set [''.pdf'', ''.jpg'', ''.jpeg'', ''.png'', ''.bmp'', ''.tiff'']"
    by (simp add: unsupportedWorld_def)
  from h have 1: "fst (processReceipt examplePlatform unsupportedWorld ''receipt.gif'') =
     failure unsupportedWorld ''Unsupported file type: .gif'' ''tesseract''" by blast
  from h unconvertible_orchestrator have 2:
    "methodUsed (fst (processReceipt examplePlatform unconvertibleWorld ''receipt.png'')) = ''error''"
    by blast
  from h unconvertible_orchestrator have 3:
    "Heuristic \<notin> set (snd (processReceipt examplePlatform unconvertibleWorld ''receipt.png''))"
    by blast
  show ?thesis using unsupported_facts 1 unconvertible_orchestrator 2 3 e by blast
qed

theorem method_error_counterexample:
  "tesseractRun unsupportedWorld ''receipt.gif'' = Inl ''Unsupported file type: .gif'' \<and>
   methodUsed (fst (processReceipt examplePlatform unsupportedWorld ''receipt.gif'')) \<noteq> ''error''"
  using unsupported_facts
  by (simp add: processReceipt_cases orchestratorRaises_def processWithTesseract_def failure_def)

section \<open>The document life cycle\<close>

lemma weak_result:
  "fst (processReceipt examplePlatform weakVisionWorld ''receipt.gif'') =
     failure weakVisionWorld ''Unsupported file type: .gif'' ''tesseract''"
proof -
  have "\<not> visionFinal examplePlatform weakVisionWorld ''receipt.gif''"
    by (simp add: visionFinal_def visionAccepted_def weak_gemini jsGreater_num)
  moreover have "\<not> thresholdRaises examplePlatform weakVisionWorld ''receipt.gif''"
    by (simp add: thresholdRaises_def weak_gemini jsGreater_num)
  then have "\<not> orchestratorRaises examplePlatform weakVisionWorld ''receipt.gif''"
    by (simp add: orchestratorRaises_def availabilityRaises_def weakVisionWorld_def
        exampleWorld_def)
  moreover have "tesseractRun weakVisionWorld ''receipt.gif'' = Inl ''Unsupported file type: .gif''"
    by (simp add: tesseractRun_def prepareImageFiles_def weakVisionWorld_def exampleWorld_def)
  ultimately show ?thesis
    by (auto simp: processReceipt_cases orchestratorRaises_def processWithTesseract_def)
qed

lemma save_first:
  "save payloadOk False t r = Inr r1 \<Longrightarrow> r1 = r"
  by (auto simp: save_def preSave_def Let_def split: if_splits)

lemma success_cases:
  "success (fst (processReceipt pf w path)) \<longleftrightarrow>
     visionFinal pf w path \<or>
     (\<not> orchestratorRaises pf w path \<and> (\<exists>out. tesseractRun w path = Inr out))"
proof (cases "orchestratorRaises pf w path")
  case True
  then have "\<not> visionFinal pf w path" by (rule raising_not_final)
  with True show ?thesis
    by (auto simp: processReceipt_cases failure_def)
next
  case False
  then have "\<not> availabilityRaises w" by (simp add: orchestratorRaises_def)
  with False show ?thesis
    by (auto simp: processReceipt_cases tesseract_success visionFinal_def visionAccepted_def)
qed

text \<open>
  \<^bold>\<open>C2\<close> (final status), as amended. For a stored document, when the persistence
  layer accepts the two saves of the run (the one that marks it \<^verbatim>\<open>processing\<close> and the
  one that stores the outcome), the run ends with status \<^verbatim>\<open>processed\<close> exactly when
  the result returned by the orchestrator reports success, and with status
  \<^verbatim>\<open>failed\<close> and one more recorded attempt exactly when it reports failure. The result
  reports success exactly when a vision result is accepted as final, or the
  orchestrator's own \<^verbatim>\<open>try\<close> block does not throw and the heuristic tier completes
  without an exception (however weak its result); a vision result that was produced but
  not accepted does not count.
\<close>

theorem status_follows_success:
  assumes "save payloadOk False (timeOf (now w)) (r0\<lparr>status := ''processing''\<rparr>) = Inr r1"
    and "res = fst (processReceipt pf w (filePath r0))"
    and "r2 = applyOcrResult (timeOf (now w)) res r1"
    and "save payloadOk (oExtractedText (ocrResultsOf r2) \<noteq> oExtractedText (ocrResultsOf r1))
           (timeOf (now w)) r2 = Inr r3"
  shows "processReceiptOCR pf payloadOk w (Some r0) = Some r3 \<and>
         status r3 = (if success res then ''processed'' else ''failed'') \<and>
         processingAttempts r3 =
           (if success res then processingAttempts r0 else processingAttempts r0 + 1) \<and>
         (success res \<longleftrightarrow>
            visionFinal pf w (filePath r0) \<or>
            (\<not> orchestratorRaises pf w (filePath r0) \<and>
             (\<exists>out. tesseractRun w (filePath r0) = Inr out)))"
proof -
  let ?t = "timeOf (now w)"
  from assms(1) have r1: "r1 = r0\<lparr>status := ''processing''\<rparr>" by (rule save_first)
  then have f: "filePath r1 = filePath r0" by simp
  have p: "processReceiptOCR pf payloadOk w (Some r0) = Some r3"
    using assms by (simp add: processReceiptOCR_def Let_def f)
  let ?m = "oExtractedText (ocrResultsOf r2) \<noteq> oExtractedText (ocrResultsOf r1)"
  from assms(4) have r3: "r3 = preSave ?m ?t r2"
    by (auto simp: save_def Let_def split: if_splits)
  have st: "status r3 = (if success res then ''processed'' else ''failed'')"
    unfolding r3 assms(3) by (cases "success res") (simp_all add: preSave_def applyOcrResult_def)
  have at: "processingAttempts r3 =
      (if success res then processingAttempts r0 else processingAttempts r0 + 1)"
    unfolding r3 assms(3) r1
    by (cases "success res") (simp_all add: preSave_def applyOcrResult_def)
  have su: "success res \<longleftrightarrow> visionFinal pf w (filePath r0) \<or>
        (\<not> orchestratorRaises pf w (filePath r0) \<and> (\<exists>out. tesseractRun w (filePath r0) = Inr out))"
    unfolding assms(2) by (rule success_cases)
  show ?thesis using p st at su by simp
qed

lemma weak_run:
  "save acceptAll False (timeOf (now weakVisionWorld)) ((newReceipt ''receipt.gif'')\<lparr>status := ''processing''\<rparr>)
     = Inr ((newReceipt ''receipt.gif'')\<lparr>status := ''processing''\<rparr>)"
  "save acceptAll False (timeOf (now weakVisionWorld))
     (applyOcrResult (timeOf (now weakVisionWorld))
        (failure weakVisionWorld ''Unsupported file type: .gif'' ''tesseract'')
        ((newReceipt ''receipt.gif'')\<lparr>status := ''processing''\<rparr>))
     = Inr (applyOcrResult (timeOf (now weakVisionWorld))
        (failure weakVisionWorld ''Unsupported file type: .gif'' ''tesseract'')
        ((newReceipt ''receipt.gif'')\<lparr>status := ''processing''\<rparr>))"
  by (simp_all add: save_def preSave_def validate_def acceptAll_def newReceipt_def
      applyOcrResult_def failure_def Let_def)

lemma example_result:
  "fst (processReceipt examplePlatform exampleWorld ''receipt.png'') =
     geminiProcessReceipt examplePlatform exampleWorld ''receipt.png''"
  "success (geminiProcessReceipt examplePlatform exampleWorld ''receipt.png'')"
  "extractedText (geminiProcessReceipt examplePlatform exampleWorld ''receipt.png'') = JStr []"
  "confidence (geminiProcessReceipt examplePlatform exampleWorld ''receipt.png'') = JNum (8 / 10)"
proof -
  show g: "success (geminiProcessReceipt examplePlatform exampleWorld ''receipt.png'')"
    "extractedText (geminiProcessReceipt examplePlatform exampleWorld ''receipt.png'') = JStr []"
    "confidence (geminiProcessReceipt examplePlatform exampleWorld ''receipt.png'') = JNum (8 / 10)"
    by (simp_all add: exampleWorld_def examplePlatform_def geminiProcessReceipt_def
        parseGeminiResponse_def jsonTextOf_braces jsOr_def Let_def)
  have s: "ocrMethod exampleWorld = ''gemini''" "geminiAvailable exampleWorld = Inr True"
    by (simp_all add: ocrMethod_def exampleWorld_def)
  show "fst (processReceipt examplePlatform exampleWorld ''receipt.png'') =
     geminiProcessReceipt examplePlatform exampleWorld ''receipt.png''"
    by (simp add: processReceipt_selected[OF s] thresholdRaises_def visionAccepted_def g
        jsGreater_num)
qed

theorem status_follows_success_witness:
  "save acceptAll False (timeOf (now weakVisionWorld)) ((newReceipt ''receipt.gif'')\<lparr>status := ''processing''\<rparr>)
     = Inr ((newReceipt ''receipt.gif'')\<lparr>status := ''processing''\<rparr>) \<and>
   map_option status
     (processReceiptOCR examplePlatform acceptAll weakVisionWorld (Some (newReceipt ''receipt.gif'')))
     = Some ''failed'' \<and>
   map_option processingAttempts
     (processReceiptOCR examplePlatform acceptAll weakVisionWorld (Some (newReceipt ''receipt.gif'')))
     = Some 1 \<and>
   \<not> success (fst (processReceipt examplePlatform weakVisionWorld (filePath (newReceipt ''receipt.gif'')))) \<and>
   success (fst (processReceipt examplePlatform exampleWorld (filePath (newReceipt ''receipt.png'')))) \<and>
   map_option status
     (processReceiptOCR examplePlatform acceptAll exampleWorld (Some (newReceipt ''receipt.png'')))
     = Some ''processed'' \<and>
   map_option processingAttempts
     (processReceiptOCR examplePlatform acceptAll exampleWorld (Some (newReceipt ''receipt.png'')))
     = Some 0"
proof -
  let ?r0 = "newReceipt ''receipt.gif''"
  let ?r1 = "?r0\<lparr>status := ''processing''\<rparr>"
  let ?res = "failure weakVisionWorld ''Unsupported file type: .gif'' ''tesseract''"
  let ?r2 = "applyOcrResult (timeOf (now weakVisionWorld)) ?res ?r1"
  have f: "filePath ?r0 = ''receipt.gif''" by (simp add: newReceipt_def)
  have res: "?res = fst (processReceipt examplePlatform weakVisionWorld (filePath ?r0))"
    by (simp add: f weak_result)
  have m: "(oExtractedText (ocrResultsOf ?r2) \<noteq> oExtractedText (ocrResultsOf ?r1)) = False"
    by (simp add: applyOcrResult_def failure_def)
  have s2: "save acceptAll (oExtractedText (ocrResultsOf ?r2) \<noteq> oExtractedText (ocrResultsOf ?r1))
      (timeOf (now weakVisionWorld)) ?r2 = Inr ?r2"
    unfolding m by (rule weak_run(2))
  have n: "\<not> success ?res" by (simp add: failure_def)
  have a: "processingAttempts ?r0 = 0" by (simp add: newReceipt_def)
  let ?p0 = "newReceipt ''receipt.png''"
  let ?p1 = "?p0\<lparr>status := ''processing''\<rparr>"
  let ?t = "timeOf (now exampleWorld)"
  let ?g = "geminiProcessReceipt examplePlatform exampleWorld ''receipt.png''"
  let ?p2 = "applyOcrResult ?t ?g ?p1"
  have pf: "filePath ?p0 = ''receipt.png''" by (simp add: newReceipt_def)
  have pres: "?g = fst (processReceipt examplePlatform exampleWorld (filePath ?p0))"
    by (simp add: pf example_result(1))
  have p1: "save acceptAll False ?t ?p1 = Inr ?p1"
    by (simp add: save_def preSave_def validate_def acceptAll_def newReceipt_def Let_def)
  have pm: "(oExtractedText (ocrResultsOf ?p2) \<noteq> oExtractedText (ocrResultsOf ?p1)) = False"
    by (simp add: applyOcrResult_def example_result newReceipt_def)
  have p2: "save acceptAll (oExtractedText (ocrResultsOf ?p2) \<noteq> oExtractedText (ocrResultsOf ?p1))
      ?t ?p2 = Inr ?p2"
    unfolding pm
    by (simp add: save_def preSave_def validate_def acceptAll_def applyOcrResult_def
        example_result newReceipt_def Let_def)
  have pa: "processingAttempts ?p0 = 0" by (simp add: newReceipt_def)
  from status_follows_success [OF weak_run(1) res refl s2]
  have 1: "map_option status
     (processReceiptOCR examplePlatform acceptAll weakVisionWorld (Some ?r0)) = Some ''failed'' \<and>
   map_option processingAttempts
     (processReceiptOCR examplePlatform acceptAll weakVisionWorld (Some ?r0)) = Some 1"
    using n a by simp
  from status_follows_success [OF p1 pres refl p2]
  have 2: "map_option status
     (processReceiptOCR examplePlatform acceptAll exampleWorld (Some ?p0)) = Some ''processed'' \<and>
   map_option processingAttempts
     (processReceiptOCR examplePlatform acceptAll exampleWorld (Some ?p0)) = Some 0"
    using example_result(2) pa by simp
  show ?thesis using weak_run(1) 1 2 n res example_result(2) pres by simp
qed

theorem weak_vision_result_counterexample:
  "success (geminiProcessReceipt examplePlatform weakVisionWorld ''receipt.gif'') \<and>
   map_option status
     (processReceiptOCR examplePlatform acceptAll weakVisionWorld (Some (newReceipt ''receipt.gif'')))
     = Some ''failed''"
  by (simp add: weak_gemini processReceiptOCR_def save_def preSave_def validate_def acceptAll_def
      newReceipt_def weak_result applyOcrResult_def failure_def Let_def)

lemma save_Inr_bounded: "save payloadOk m t r = Inr r' \<Longrightarrow> processingAttempts r' \<le> 3"
  by (auto simp: save_def validate_def Let_def split: if_splits)

lemma processReceiptOCR_bounded:
  "bounded stored \<Longrightarrow> bounded (processReceiptOCR pf payloadOk w stored)"
  by (auto simp: bounded_def processReceiptOCR_def Let_def
      split: option.splits sum.splits dest: save_Inr_bounded)

lemma reprocessReceipt_bounded:
  assumes "bounded stored"
  shows "bounded (reprocessReceipt pf payloadOk w stored)"
proof (cases "reprocessReset payloadOk w stored")
  case (Inl e)
  with assms show ?thesis by (simp add: reprocessReceipt_def)
next
  case (Inr r)
  then have "processingAttempts r \<le> 3"
    by (auto simp: reprocessReset_def split: option.splits dest: save_Inr_bounded)
  then have "bounded (Some r)" by (simp add: bounded_def)
  then have "bounded (processReceiptOCR pf payloadOk w (Some r))"
    by (rule processReceiptOCR_bounded)
  with Inr show ?thesis by (simp add: reprocessReceipt_def)
qed

lemma handle_bounded: "bounded stored \<Longrightarrow> bounded (handle pf payloadOk stored rq)"
proof (cases rq)
  case (Pair req w)
  assume b: "bounded stored"
  show ?thesis
  proof (cases req)
    case (Upload path)
    have "bounded (Some (newReceipt path))" by (simp add: bounded_def newReceipt_def)
    then have "bounded (processReceiptOCR pf payloadOk w (Some (newReceipt path)))"
      by (rule processReceiptOCR_bounded)
    with b Pair Upload show ?thesis by (cases stored) simp_all
  next
    case AutoRun
    with b Pair show ?thesis by (simp add: processReceiptOCR_bounded)
  next
    case Reprocess
    with b Pair show ?thesis by (simp add: reprocessReceipt_bounded)
  qed
qed

lemma foldl_handle_bounded:
  "bounded stored \<Longrightarrow> bounded (foldl (handle pf payloadOk) stored reqs)"
  by (induction reqs arbitrary: stored) (simp_all add: handle_bounded)

lemma failing_result:
  "fst (processReceipt examplePlatform failingWorld ''receipt.png'') =
     failure failingWorld ''OCR failed: cannot read image'' ''tesseract''"
  by (simp add: processReceipt_def ocrMethod_def failingWorld_def exampleWorld_def
      processWithTesseract_def tesseractRun_def prepareImageFiles_def extractTextFromImage_def)

lemma failing_run:
  "processingAttempts r < 3 \<Longrightarrow> filePath r = ''receipt.png'' \<Longrightarrow>
   status r \<in> set [''uploaded'', ''processing'', ''processed'', ''failed''] \<Longrightarrow>
   oConfidence (ocrResultsOf r) = JNum 0 \<Longrightarrow>
   processReceiptOCR examplePlatform acceptAll failingWorld (Some r) =
     Some (r\<lparr>status := ''failed'',
             lastProcessingError :=
               Some (''OCR failed: cannot read image'', timeOf (now failingWorld)),
             processingAttempts := processingAttempts r + 1\<rparr>)"
  by (simp add: processReceiptOCR_def save_def preSave_def validate_def acceptAll_def
      failing_result applyOcrResult_def failure_def Let_def)

lemma failing_run_full:
  "processingAttempts r = 3 \<Longrightarrow> filePath r = ''receipt.png'' \<Longrightarrow>
   oConfidence (ocrResultsOf r) = JNum 0 \<Longrightarrow>
   processReceiptOCR examplePlatform acceptAll failingWorld (Some r) =
     Some (r\<lparr>status := ''processing''\<rparr>)"
  by (simp add: processReceiptOCR_def save_def preSave_def validate_def acceptAll_def
      failing_result applyOcrResult_def failure_def Let_def)

lemma four_failures:
  "history examplePlatform acceptAll fourFailures =
     Some ((newReceipt ''receipt.png'')
             \<lparr>status := ''processing'',
              lastProcessingError :=
                Some (''OCR failed: cannot read image'', timeOf (now failingWorld)),
              processingAttempts := 3\<rparr>)"
  by (simp add: history_def fourFailures_def failing_run failing_run_full newReceipt_def)

lemma reset_accepted:
  assumes "payloadOk (resetForReprocess (timeOf (now w)) (now w) r0)"
  shows "reprocessReset payloadOk w (Some r0) = Inr (resetForReprocess (timeOf (now w)) (now w) r0)"
  using assms
  by (simp add: reprocessReset_def save_def preSave_def validate_def resetForReprocess_def Let_def)

lemma reset_only:
  "reprocessReset payloadOk w (Some r0) = Inr r \<Longrightarrow>
   r = resetForReprocess (timeOf (now w)) (now w) r0"
  by (auto simp: reprocessReset_def save_def preSave_def resetForReprocess_def Let_def
      split: if_splits)

lemma reprocess_after_failures:
  "history examplePlatform acceptAll (fourFailures @ [(Reprocess, failingWorld)]) =
     Some ((newReceipt ''receipt.png'')
             \<lparr>status := ''failed'',
              parsedDataOf := Some (Parsed (getEmptyParsedData (now failingWorld))),
              lastProcessingError :=
                Some (''OCR failed: cannot read image'', timeOf (now failingWorld)),
              processingAttempts := 1\<rparr>)"
proof -
  let ?r = "(newReceipt ''receipt.png'')
             \<lparr>status := ''processing'',
              lastProcessingError :=
                Some (''OCR failed: cannot read image'', timeOf (now failingWorld)),
              processingAttempts := 3\<rparr>"
  let ?z = "resetForReprocess (timeOf (now failingWorld)) (now failingWorld) ?r"
  have "acceptAll ?z" by (simp add: acceptAll_def)
  then have "reprocessReset acceptAll failingWorld (Some ?r) = Inr ?z" by (rule reset_accepted)
  then have "reprocessReceipt examplePlatform acceptAll failingWorld (Some ?r) =
      processReceiptOCR examplePlatform acceptAll failingWorld (Some ?z)"
    by (simp add: reprocessReceipt_def)
  also have "\<dots> = Some (?z\<lparr>status := ''failed'',
             lastProcessingError :=
               Some (''OCR failed: cannot read image'', timeOf (now failingWorld)),
             processingAttempts := processingAttempts ?z + 1\<rparr>)"
    by (rule failing_run) (simp_all add: resetForReprocess_def newReceipt_def)
  finally show ?thesis
    using four_failures
    by (simp add: history_def resetForReprocess_def newReceipt_def)
qed

text \<open>
  \<^bold>\<open>C3\<close> (bounded attempts). After any sequence of requests on a document (its
  upload, any number of further automatic runs, reprocess requests), whatever the
  outcome of each run, the recorded attempts counter is at most 3. A reprocess request
  on a stored document, when the persistence layer accepts the payload of the reset
  document, stores that document with the counter at 0, status \<^verbatim>\<open>uploaded\<close>, the
  extraction data cleared and the last error removed, and only then starts the run, on
  the document so stored; no other document is ever stored by the reset. A reprocess
  request for a document that is not found stores nothing and starts no run.
\<close>

theorem attempts_bounded:
  "(\<forall>r. history pf payloadOk reqs = Some r \<longrightarrow> processingAttempts r \<le> 3) \<and>
   (payloadOk (resetForReprocess (timeOf (now w)) (now w) r0) \<longrightarrow>
      (\<exists>r. reprocessReset payloadOk w (Some r0) = Inr r \<and>
           processingAttempts r = 0 \<and> status r = ''uploaded'' \<and>
           ocrResultsOf r = \<lparr>oExtractedText = JStr [], oConfidence = JNum 0, oProcessedAt = None,
                             oProcessingTime = 0\<rparr> \<and>
           parsedDataOf r = Some (Parsed (getEmptyParsedData (now w))) \<and>
           lastProcessingError r = None \<and>
           reprocessReceipt pf payloadOk w (Some r0) = processReceiptOCR pf payloadOk w (Some r))) \<and>
   (\<forall>r. reprocessReset payloadOk w (Some r0) = Inr r \<longrightarrow>
      processingAttempts r = 0 \<and> status r = ''uploaded'' \<and>
      ocrResultsOf r = \<lparr>oExtractedText = JStr [], oConfidence = JNum 0, oProcessedAt = None,
                        oProcessingTime = 0\<rparr> \<and>
      parsedDataOf r = Some (Parsed (getEmptyParsedData (now w))) \<and>
      lastProcessingError r = None \<and>
      reprocessReceipt pf payloadOk w (Some r0) = processReceiptOCR pf payloadOk w (Some r)) \<and>
   reprocessReset payloadOk w None = Inl ''Receipt not found'' \<and>
   reprocessReceipt pf payloadOk w None = None"
proof -
  let ?z = "resetForReprocess (timeOf (now w)) (now w) r0"
  have "bounded (history pf payloadOk reqs)"
    unfolding history_def by (rule foldl_handle_bounded) (simp add: bounded_def)
  then have 1: "\<forall>r. history pf payloadOk reqs = Some r \<longrightarrow> processingAttempts r \<le> 3"
    by (auto simp: bounded_def)
  have z: "processingAttempts ?z = 0 \<and> status ?z = ''uploaded'' \<and>
      ocrResultsOf ?z = \<lparr>oExtractedText = JStr [], oConfidence = JNum 0, oProcessedAt = None,
                        oProcessingTime = 0\<rparr> \<and>
      parsedDataOf ?z = Some (Parsed (getEmptyParsedData (now w))) \<and>
      lastProcessingError ?z = None"
    by (simp add: resetForReprocess_def)
  have run: "reprocessReceipt pf payloadOk w (Some r0) = processReceiptOCR pf payloadOk w (Some r)"
    if "reprocessReset payloadOk w (Some r0) = Inr r" for r
    using that by (simp add: reprocessReceipt_def)
  have 2: "\<exists>r. reprocessReset payloadOk w (Some r0) = Inr r \<and>
           processingAttempts r = 0 \<and> status r = ''uploaded'' \<and>
           ocrResultsOf r = \<lparr>oExtractedText = JStr [], oConfidence = JNum 0, oProcessedAt = None,
                             oProcessingTime = 0\<rparr> \<and>
           parsedDataOf r = Some (Parsed (getEmptyParsedData (now w))) \<and>
           lastProcessingError r = None \<and>
           reprocessReceipt pf payloadOk w (Some r0) = processReceiptOCR pf payloadOk w (Some r)"
    if "payloadOk ?z"
  proof -
    from that have a: "reprocessReset payloadOk w (Some r0) = Inr ?z"
      by (rule reset_accepted[of payloadOk w r0])
    from run[OF a] a z show ?thesis by simp
  qed
  have 3: "processingAttempts r = 0 \<and> status r = ''uploaded'' \<and>
      ocrResultsOf r = \<lparr>oExtractedText = JStr [], oConfidence = JNum 0, oProcessedAt = None,
                        oProcessingTime = 0\<rparr> \<and>
      parsedDataOf r = Some (Parsed (getEmptyParsedData (now w))) \<and>
      lastProcessingError r = None \<and>
      reprocessReceipt pf payloadOk w (Some r0) = processReceiptOCR pf payloadOk w (Some r)"
    if "reprocessReset payloadOk w (Some r0) = Inr r" for r
    using reset_only[OF that] run[OF that] z by simp
  have 4: "reprocessReset payloadOk w None = Inl ''Receipt not found''"
    "reprocessReceipt pf payloadOk w None = None"
    by (simp_all add: reprocessReset_def reprocessReceipt_def)
  show ?thesis using 1 2 3 4 by blast
qed

theorem attempts_bounded_witness:
  "map_option processingAttempts
     (history examplePlatform acceptAll (fourFailures @ [(Reprocess, failingWorld)])) = Some 1 \<and>
   map_option processingAttempts (history examplePlatform acceptAll fourFailures) = Some 3 \<and>
   acceptAll (resetForReprocess (timeOf (now failingWorld)) (now failingWorld)
                ((newReceipt ''receipt.png'')\<lparr>status := ''failed'', processingAttempts := 3\<rparr>)) \<and>
   map_option processingAttempts
     (reprocessReceipt examplePlatform acceptAll failingWorld
        (Some ((newReceipt ''receipt.png'')\<lparr>status := ''failed'', processingAttempts := 3\<rparr>)))
     = Some 1"
proof -
  let ?r0 = "(newReceipt ''receipt.png'')\<lparr>status := ''failed'', processingAttempts := 3\<rparr>"
  let ?z = "resetForReprocess (timeOf (now failingWorld)) (now failingWorld) ?r0"
  have a: "acceptAll ?z" by (simp add: acceptAll_def)
  have h: "history examplePlatform acceptAll (fourFailures @ [(Reprocess, failingWorld)]) \<noteq> None"
    by (simp add: reprocess_after_failures)
  have run: "processReceiptOCR examplePlatform acceptAll failingWorld (Some ?z) =
      Some (?z\<lparr>status := ''failed'',
             lastProcessingError :=
               Some (''OCR failed: cannot read image'', timeOf (now failingWorld)),
             processingAttempts := processingAttempts ?z + 1\<rparr>)"
    by (rule failing_run) (simp_all add: resetForReprocess_def newReceipt_def)
  from attempts_bounded [of examplePlatform acceptAll
      "fourFailures @ [(Reprocess, failingWorld)]" failingWorld ?r0]
  have "reprocessReceipt examplePlatform acceptAll failingWorld (Some ?r0) =
      processReceiptOCR examplePlatform acceptAll failingWorld (Some ?z)"
    using a reset_only by blast
  with run have "map_option processingAttempts
     (reprocessReceipt examplePlatform acceptAll failingWorld (Some ?r0)) = Some 1"
    by (simp add: resetForReprocess_def)
  then show ?thesis using a by (simp add: reprocess_after_failures four_failures)
qed

end
